theory Spec2Isabelle
  imports Main "HOL-Library.Monad_Syntax"
begin

section \<open>Values decoded from the API\<close>

text \<open>
  The pipeline handles whatever \<^verbatim>\<open>response.json()\<close> returns: Python values built
  from \<^verbatim>\<open>None\<close>, booleans, integers, strings, lists and dictionaries with string
  keys. A dictionary is an association list; a decoded dictionary has distinct keys,
  and lookups read the first binding. \<open>PTimestamp\<close> is the value
  \<^verbatim>\<open>pd.to_datetime\<close> produces (nanoseconds since the epoch); it never comes from
  the API. A missing cell of a data frame (NaN, NaT) is \<open>PNone\<close> as well: pandas
  treats all of them as missing and writes all of them as SQL NULL. Numbers with a
  fractional part are not part of this model.
\<close>

datatype pyval =
    PNone
  | PBool bool
  | PInt int
  | PStr string
  | PList "pyval list"
  | PDict "(string \<times> pyval) list"
  | PTimestamp int

type_synonym pydict = "(string \<times> pyval) list"

text \<open>\<^verbatim>\<open>d.get(k)\<close> and \<^verbatim>\<open>d.get(k, default)\<close>.\<close>

definition dict_get :: "pydict \<Rightarrow> string \<Rightarrow> pyval" where
  "dict_get d k = (case map_of d k of None \<Rightarrow> PNone | Some v \<Rightarrow> v)"

definition dict_get_default :: "pydict \<Rightarrow> string \<Rightarrow> pyval \<Rightarrow> pyval" where
  "dict_get_default d k dflt = (case map_of d k of None \<Rightarrow> dflt | Some v \<Rightarrow> v)"

text \<open>Python truthiness, as \<^verbatim>\<open>if movie_results:\<close> tests it.\<close>

fun truthy :: "pyval \<Rightarrow> bool" where
  "truthy PNone = False"
| "truthy (PBool b) = b"
| "truthy (PInt n) = (n \<noteq> 0)"
| "truthy (PStr s) = (s \<noteq> [])"
| "truthy (PList xs) = (xs \<noteq> [])"
| "truthy (PDict kvs) = (kvs \<noteq> [])"
| "truthy (PTimestamp t) = True"

section \<open>Extractor\<close>

text \<open>
  What the HTTP client gives back for one request: it raises (transport failure), or
  it returns a response with a status code and a body; \<^verbatim>\<open>response.json()\<close> raises
  on a body that is not JSON (\<open>None\<close>) and returns the decoded value otherwise.
\<close>

datatype http_outcome =
    Transport_failure
  | Response nat "pyval option"

text \<open>\<^verbatim>\<open>str(n)\<close> for a status code, and \<^verbatim>\<open>s.startswith(p)\<close>.\<close>

definition digit_char :: "nat \<Rightarrow> char" where
  "digit_char d = ''0123456789'' ! d"

function str_nat :: "nat \<Rightarrow> string" where
  "str_nat n = (if n < 10 then [digit_char n] else str_nat (n div 10) @ [digit_char (n mod 10)])"
  by pat_completeness auto
termination
  by (relation "measure id") auto

declare str_nat.simps [simp del]

definition startswith :: "string \<Rightarrow> string \<Rightarrow> bool" where
  "startswith s p = (take (length p) s = p)"

text \<open>
  \<^verbatim>\<open>extract_movies(url, data, page)\<close>, given the outcome of its request. The result
  \<open>None\<close> is Python's \<^verbatim>\<open>None\<close>: the handler logged the exception and the function
  fell off its end. \<^verbatim>\<open>.get\<close> exists on a dictionary only; on any other decoded
  value the attribute lookup raises.
\<close>

definition extract_movies :: "http_outcome \<Rightarrow> string \<Rightarrow> (pyval \<times> pyval) option" where
  "extract_movies response data =
     (case response of
        Transport_failure \<Rightarrow> None
      | Response status_code body \<Rightarrow>
          if startswith (str_nat status_code) ''20'' then
            (case body of
               Some (PDict json_response) \<Rightarrow>
                 Some (dict_get json_response data,
                       dict_get_default json_response ''total_pages'' (PInt 1))
             | _ \<Rightarrow> None)
          else Some (PList [], PInt 0))"

text \<open>\<^verbatim>\<open>extract_genre(url, data)\<close>; the logged exception again leaves \<^verbatim>\<open>None\<close>.\<close>

definition extract_genre :: "http_outcome \<Rightarrow> string \<Rightarrow> pyval" where
  "extract_genre response data =
     (case response of
        Transport_failure \<Rightarrow> PNone
      | Response status_code body \<Rightarrow>
          if startswith (str_nat status_code) ''20'' then
            (case body of
               Some (PDict json_response) \<Rightarrow> dict_get json_response data
             | _ \<Rightarrow> PNone)
          else PList [])"

section \<open>Data frames\<close>

text \<open>
  A \<^verbatim>\<open>pandas.DataFrame\<close> built from a list of dictionaries: its column labels in
  order, and its rows, each row binding every column. The row index is not modelled:
  \<^verbatim>\<open>to_sql\<close> is called with \<^verbatim>\<open>index=False\<close> and no step of the pipeline reads it.
  The dtype pandas infers for a column is not modelled either: a cell holds the value
  it was given.
\<close>

record frame =
  columns :: "string list"
  rows :: "pydict list"

text \<open>
  \<^verbatim>\<open>pd.DataFrame(results)\<close>: the columns are the keys in order of first appearance,
  and a record lacking a key gets a missing cell.
\<close>

definition DataFrame :: "pydict list \<Rightarrow> frame" where
  "DataFrame results =
     (let cols = rev (remdups (rev (concat (map (map fst) results))))
      in \<lparr>columns = cols,
          rows = map (\<lambda>r. map (\<lambda>c. (c, dict_get r c)) cols) results\<rparr>)"

definition isna :: "pyval \<Rightarrow> bool" where
  "isna v = (v = PNone)"

text \<open>\<^verbatim>\<open>df.dropna(subset=[c], inplace=True)\<close>; \<open>None\<close> is the KeyError for an unknown label.\<close>

definition dropna :: "string \<Rightarrow> frame \<Rightarrow> frame option" where
  "dropna c df =
     (if c \<in> set (columns df)
      then Some (df\<lparr>rows := filter (\<lambda>r. \<not> isna (dict_get r c)) (rows df)\<rparr>)
      else None)"

text \<open>\<^verbatim>\<open>df.loc[:, cs]\<close>.\<close>

definition loc_columns :: "string list \<Rightarrow> frame \<Rightarrow> frame option" where
  "loc_columns cs df =
     (if set cs \<subseteq> set (columns df)
      then Some \<lparr>columns = cs, rows = map (\<lambda>r. map (\<lambda>c. (c, dict_get r c)) cs) (rows df)\<rparr>
      else None)"

definition set_cell :: "string \<Rightarrow> pyval \<Rightarrow> pydict \<Rightarrow> pydict" where
  "set_cell c v r = map (\<lambda>(k, x). (k, if k = c then v else x)) r"

text \<open>
  \<^verbatim>\<open>df.explode(column=c)\<close>: a list-like cell gives one row per element, an empty
  list-like gives one row with a missing cell, any other cell is kept. A dictionary
  is list-like and explodes into its keys.
\<close>

fun explode_values :: "pyval \<Rightarrow> pyval list" where
  "explode_values (PList xs) = (if xs = [] then [PNone] else xs)"
| "explode_values (PDict kvs) =
     (if kvs = [] then [PNone] else map PStr (rev (remdups (rev (map fst kvs)))))"
| "explode_values v = [v]"

definition explode :: "string \<Rightarrow> frame \<Rightarrow> frame" where
  "explode c df =
     df\<lparr>rows := concat (map (\<lambda>r. map (\<lambda>v. set_cell c v r) (explode_values (dict_get r c)))
                          (rows df))\<rparr>"

text \<open>\<^verbatim>\<open>df.rename(columns=m)\<close>.\<close>

definition renamed :: "(string \<times> string) list \<Rightarrow> string \<Rightarrow> string" where
  "renamed m c = (case map_of m c of None \<Rightarrow> c | Some c' \<Rightarrow> c')"

definition rename :: "(string \<times> string) list \<Rightarrow> frame \<Rightarrow> frame" where
  "rename m df =
     \<lparr>columns = map (renamed m) (columns df),
      rows = map (map (\<lambda>(k, x). (renamed m k, x))) (rows df)\<rparr>"

text \<open>\<^verbatim>\<open>df.reset_index(drop=True)\<close> renumbers the index, which is not modelled.\<close>

definition reset_index :: "frame \<Rightarrow> frame" where
  "reset_index df = df"

text \<open>\<^verbatim>\<open>df[c]\<close>; \<open>None\<close> is the KeyError.\<close>

definition get_column :: "string \<Rightarrow> frame \<Rightarrow> pyval list option" where
  "get_column c df =
     (if c \<in> set (columns df) then Some (map (\<lambda>r. dict_get r c) (rows df)) else None)"

text \<open>\<^verbatim>\<open>df[c] = series\<close>, for a series with the frame's own index.\<close>

definition set_column :: "string \<Rightarrow> pyval list \<Rightarrow> frame \<Rightarrow> frame" where
  "set_column c vs df =
     (if c \<in> set (columns df)
      then df\<lparr>rows := map2 (set_cell c) vs (rows df)\<rparr>
      else \<lparr>columns = columns df @ [c], rows = map2 (\<lambda>v r. r @ [(c, v)]) vs (rows df)\<rparr>)"

text \<open>
  \<^verbatim>\<open>pd.to_datetime(series)\<close> with its default \<^verbatim>\<open>errors='raise'\<close>. The parser of
  pandas is a library contract, taken as the parameter \<open>parse\<close>: what it makes of one
  value that is present. A missing value becomes NaT; one value the parser rejects
  makes the whole call raise (\<open>None\<close>).
\<close>

datatype parsed = Unparseable | NaT | Stamp int

definition to_datetime_value :: "(pyval \<Rightarrow> parsed) \<Rightarrow> pyval \<Rightarrow> pyval option" where
  "to_datetime_value parse v =
     (if isna v then Some PNone
      else case parse v of
             Unparseable \<Rightarrow> None
           | NaT \<Rightarrow> Some PNone
           | Stamp t \<Rightarrow> Some (PTimestamp t))"

definition to_datetime :: "(pyval \<Rightarrow> parsed) \<Rightarrow> pyval list \<Rightarrow> pyval list option" where
  "to_datetime parse vs = those (map (to_datetime_value parse) vs)"

text \<open>\<^verbatim>\<open>df.drop(columns=cs, inplace=True)\<close>; \<open>None\<close> is the KeyError for a label not found.\<close>

definition drop_columns :: "string list \<Rightarrow> frame \<Rightarrow> frame option" where
  "drop_columns cs df =
     (if set cs \<subseteq> set (columns df)
      then Some \<lparr>columns = filter (\<lambda>c. c \<notin> set cs) (columns df),
                 rows = map (filter (\<lambda>(k, x). k \<notin> set cs)) (rows df)\<rparr>
      else None)"

section \<open>Normalizer\<close>

text \<open>
  \<^verbatim>\<open>transform_movies(results)\<close> for a list of records. Every step that can raise is a
  step of the option monad; the handler logs and the function returns \<^verbatim>\<open>None\<close>.
\<close>

definition transform_movies :: "(pyval \<Rightarrow> parsed) \<Rightarrow> pydict list \<Rightarrow> (frame \<times> frame) option" where
  "transform_movies parse results =
     do {
       let df = DataFrame results;
       df \<leftarrow> dropna ''id'' df;
       df \<leftarrow> dropna ''genre_ids'' df;
       movie_genre_df \<leftarrow> loc_columns [''id'', ''genre_ids''] df;
       let movie_genre_df = explode ''genre_ids'' movie_genre_df;
       let movie_genre_df = rename [(''id'', ''movie_id''), (''genre_ids'', ''genre_id'')] movie_genre_df;
       let movie_genre_df = reset_index movie_genre_df;
       movie_genre_df \<leftarrow> dropna ''genre_id'' movie_genre_df;
       release_date \<leftarrow> get_column ''release_date'' df;
       release_date \<leftarrow> to_datetime parse release_date;
       let df = set_column ''release_date'' release_date df;
       df \<leftarrow> drop_columns [''backdrop_path'', ''poster_path'', ''video'', ''adult'', ''genre_ids''] df;
       Some (df, movie_genre_df)
     }"

text \<open>
  \<^verbatim>\<open>transform_genre(results)\<close>. \<^verbatim>\<open>genre_df['id']\<close> is a series of its own, and
  \<^verbatim>\<open>dropna(inplace=True)\<close> shortens that series, not the frame it was read from.
\<close>

definition transform_genre :: "pydict list \<Rightarrow> frame option" where
  "transform_genre results =
     (let genre_df = DataFrame results in
      case get_column ''id'' genre_df of
        None \<Rightarrow> None
      | Some id_series \<Rightarrow>
          (let id_series = filter (\<lambda>v. \<not> isna v) id_series in Some genre_df))"

section \<open>Store\<close>

text \<open>
  A stored row gives every column a value, NULL (\<open>PNone\<close>) where none was written. A
  table is the list of its rows, and the store maps a qualified table name to its table.
\<close>

type_synonym db_row = "string \<Rightarrow> pyval"
type_synonym table = "db_row list"
type_synonym store = "string \<Rightarrow> table"

record sql_table =
  schema :: "string option"
  name :: string

datatype on_conflict = DO_NOTHING | DO_UPDATE_SET "string list"

record sql_insert =
  into_table :: string
  insert_columns :: "string list"
  conflict_target :: "string list"
  conflict_action :: on_conflict

datatype db_error = Syntax_error | Not_null_violation | Cardinality_violation

text \<open>
  PostgreSQL's \<^verbatim>\<open>INSERT ... ON CONFLICT\<close>, as its manual describes it. A proposed row
  conflicts with a stored row when they agree on every column of the conflict target
  and none of these values is NULL. \<^verbatim>\<open>DO UPDATE SET c = EXCLUDED.c\<close> overwrites the
  listed columns of the stored row with the proposed values; a command may not affect
  the same row twice. \<open>touched\<close> holds the keys the command has inserted or updated.
\<close>

definition conflicts :: "string list \<Rightarrow> db_row \<Rightarrow> db_row \<Rightarrow> bool" where
  "conflicts target new old = list_all (\<lambda>c. new c \<noteq> PNone \<and> old c = new c) target"

definition excluded_update :: "string list \<Rightarrow> db_row \<Rightarrow> db_row \<Rightarrow> db_row" where
  "excluded_update cs new old = (\<lambda>c. if c \<in> set cs then new c else old c)"

fun exec_rows ::
  "string list \<Rightarrow> sql_insert \<Rightarrow> db_row list \<Rightarrow> pyval list list \<Rightarrow> table \<Rightarrow> db_error + table"
where
  "exec_rows not_null stmt [] touched tbl = Inr tbl"
| "exec_rows not_null stmt (x # xs) touched tbl =
     (if list_ex (\<lambda>c. x c = PNone) not_null then Inl Not_null_violation
      else if list_ex (conflicts (conflict_target stmt) x) tbl then
        (case conflict_action stmt of
           DO_NOTHING \<Rightarrow> exec_rows not_null stmt xs touched tbl
         | DO_UPDATE_SET cs \<Rightarrow>
             if map x (conflict_target stmt) \<in> set touched then Inl Cardinality_violation
             else exec_rows not_null stmt xs (map x (conflict_target stmt) # touched)
                    (map (\<lambda>old. if conflicts (conflict_target stmt) x old
                                 then excluded_update cs x old else old) tbl))
      else exec_rows not_null stmt xs (map x (conflict_target stmt) # touched) (tbl @ [x]))"

definition exec_statement ::
  "string list \<Rightarrow> sql_insert \<Rightarrow> db_row list \<Rightarrow> table \<Rightarrow> db_error + table"
where
  "exec_statement not_null stmt xs tbl =
     (if insert_columns stmt = [] \<or> conflict_action stmt = DO_UPDATE_SET []
      then Inl Syntax_error
      else exec_rows not_null stmt xs [] tbl)"

text \<open>
  \<^verbatim>\<open>psycopg2.extras.execute_values(cur, sql, argslist)\<close> with its default
  \<^verbatim>\<open>page_size=100\<close>: one statement per page of at most 100 rows, all on one
  transaction; the first statement that fails raises.
\<close>

function chunks :: "nat \<Rightarrow> 'a list \<Rightarrow> 'a list list" where
  "chunks n xs = (if n = 0 \<or> xs = [] then [] else take n xs # chunks n (drop n xs))"
  by pat_completeness auto
termination
  by (relation "measure (\<lambda>(n, xs). length xs)") auto

declare chunks.simps [simp del]

fun run_pages ::
  "string list \<Rightarrow> sql_insert \<Rightarrow> db_row list list \<Rightarrow> table \<Rightarrow> db_error + table"
where
  "run_pages not_null stmt [] tbl = Inr tbl"
| "run_pages not_null stmt (p # ps) tbl =
     (case exec_statement not_null stmt p tbl of
        Inl e \<Rightarrow> Inl e
      | Inr tbl' \<Rightarrow> run_pages not_null stmt ps tbl')"

definition execute_values ::
  "string list \<Rightarrow> sql_insert \<Rightarrow> db_row list \<Rightarrow> table \<Rightarrow> db_error + table"
where
  "execute_values not_null stmt data_iter tbl = run_pages not_null stmt (chunks 100 data_iter) tbl"

text \<open>
  Modelled from the spec: the declarations of the three tables, which the repository
  does not hold. \<^verbatim>\<open>genres\<close> and \<^verbatim>\<open>movies\<close> have \<^verbatim>\<open>id\<close> as primary key, so \<^verbatim>\<open>id\<close>
  is NOT NULL there; \<^verbatim>\<open>movie_genres\<close> has \<^verbatim>\<open>UNIQUE(movie_id, genre_id)\<close> and no
  NOT NULL column.
\<close>

definition not_null_columns :: "sql_table \<Rightarrow> string list" where
  "not_null_columns t = (if name t = ''movie_genres'' then [] else [''id''])"

section \<open>Loader\<close>

text \<open>
  \<^verbatim>\<open>insert_on_conflict_update(table, conn, keys, data_iter)\<close>, in its two parts. The
  first builds the statement \<^verbatim>\<open>insert_stmt\<close>, chosen by the table's name; the list
  the source calls \<^verbatim>\<open>columns\<close> is \<open>set_columns\<close> here. The second runs it: when
  \<^verbatim>\<open>execute_values\<close> raises, the handler logs, the commit is skipped and the
  transaction is rolled back, so the store is as before.
\<close>

definition insert_stmt :: "sql_table \<Rightarrow> string list \<Rightarrow> sql_insert" where
  "insert_stmt t keys =
     (let table_name =
            (case schema t of
               None \<Rightarrow> name t
             | Some s \<Rightarrow> if s \<noteq> [] then s @ ''.'' @ name t else name t);
          set_columns = filter (\<lambda>key. key \<noteq> ''id'') keys
      in if name t = ''movie_genres''
         then \<lparr>into_table = table_name, insert_columns = keys,
               conflict_target = [''movie_id'', ''genre_id''],
               conflict_action = DO_NOTHING\<rparr>
         else \<lparr>into_table = table_name, insert_columns = keys,
               conflict_target = [''id''],
               conflict_action = DO_UPDATE_SET set_columns\<rparr>)"

definition insert_on_conflict_update ::
  "sql_table \<Rightarrow> store \<Rightarrow> string list \<Rightarrow> db_row list \<Rightarrow> store"
where
  "insert_on_conflict_update t conn keys data_iter =
     (let stmt = insert_stmt t keys
      in case execute_values (not_null_columns t) stmt data_iter (conn (into_table stmt)) of
           Inl e \<Rightarrow> conn
         | Inr tbl \<Rightarrow> conn(into_table stmt := tbl))"

text \<open>
  \<^verbatim>\<open>load(data, table_name, engine)\<close>. \<^verbatim>\<open>data\<close> is \<^verbatim>\<open>None\<close> when the transformation
  failed: the attribute lookup raises and the handler logs. \<^verbatim>\<open>to_sql\<close> sends nothing
  for a frame without rows, and otherwise hands the column labels and the rows to the
  insertion method; a column the statement does not list is NULL in an inserted row.
\<close>

definition load :: "frame option \<Rightarrow> string \<Rightarrow> store \<Rightarrow> store" where
  "load data table_name engine =
     (case data of
        None \<Rightarrow> engine
      | Some df \<Rightarrow>
          if rows df = [] then engine
          else insert_on_conflict_update \<lparr>schema = Some ''etl_project'', name = table_name\<rparr>
                 engine (columns df) (map dict_get (rows df)))"

section \<open>Orchestrator\<close>

text \<open>
  The state of a run: the store, and the pages fetched so far, in order. A run ends by
  leaving the loop, or by an exception nothing catches (the unpacking of \<^verbatim>\<open>None\<close>, or
  the comparison of the page number with a value that is no number). The frames of
  pandas are modelled for a list of records only: a truthy result of another shape is
  reported as \<open>Outside_model\<close>.
\<close>

record run_state =
  db :: store
  fetched :: "int list"

datatype run_result =
    Completed run_state
  | Uncaught_TypeError run_state
  | Outside_model run_state

datatype step = Next_page run_state int | Stop run_result

fun records_of :: "pyval \<Rightarrow> pydict list option" where
  "records_of (PList xs) = those (map (\<lambda>x. case x of PDict d \<Rightarrow> Some d | _ \<Rightarrow> None) xs)"
| "records_of v = None"

text \<open>\<^verbatim>\<open>pagination >= total_pages\<close>; \<open>None\<close> is the TypeError.\<close>

fun py_ge :: "int \<Rightarrow> pyval \<Rightarrow> bool option" where
  "py_ge p (PInt n) = Some (p \<ge> n)"
| "py_ge p (PBool b) = Some (p \<ge> (if b then 1 else 0))"
| "py_ge p v = None"

text \<open>One pass through the body of \<^verbatim>\<open>while True\<close>, given the outcome of its request.\<close>

definition page_step :: "(pyval \<Rightarrow> parsed) \<Rightarrow> http_outcome \<Rightarrow> run_state \<Rightarrow> int \<Rightarrow> step" where
  "page_step parse response st pagination =
     (let st = st\<lparr>fetched := fetched st @ [pagination]\<rparr> in
      case extract_movies response ''results'' of
        None \<Rightarrow> Stop (Uncaught_TypeError st)
      | Some (movie_results, total_pages) \<Rightarrow>
          if truthy movie_results then
            (case records_of movie_results of
               None \<Rightarrow> Stop (Outside_model st)
             | Some results \<Rightarrow>
                 (case transform_movies parse results of
                    None \<Rightarrow> Stop (Uncaught_TypeError st)
                  | Some (movies, movie_genres) \<Rightarrow>
                      (let st = st\<lparr>db := load (Some movie_genres) ''movie_genres''
                                            (load (Some movies) ''movies'' (db st))\<rparr>
                       in case py_ge pagination total_pages of
                            None \<Rightarrow> Stop (Uncaught_TypeError st)
                          | Some True \<Rightarrow> Stop (Completed st)
                          | Some False \<Rightarrow> Next_page st (pagination + 1))))
          else Next_page st pagination)"

text \<open>
  The loop. The API is the environment: \<open>api n p\<close> is the outcome of the request for
  page \<open>p\<close> when \<open>n\<close> requests for movie pages came before it. The result \<open>None\<close> is a
  loop that never ends.
\<close>

partial_function (option) page_loop ::
  "(pyval \<Rightarrow> parsed) \<Rightarrow> (nat \<Rightarrow> int \<Rightarrow> http_outcome) \<Rightarrow> run_state \<Rightarrow> int \<Rightarrow> run_result option"
where
  "page_loop parse api st pagination =
     (case page_step parse (api (length (fetched st)) pagination) st pagination of
        Stop r \<Rightarrow> Some r
      | Next_page st' pagination' \<Rightarrow> page_loop parse api st' pagination')"

declare page_loop.simps [code]

text \<open>\<^verbatim>\<open>main()\<close>, from a store and the outcomes of its requests.\<close>

definition main ::
  "(pyval \<Rightarrow> parsed) \<Rightarrow> http_outcome \<Rightarrow> (nat \<Rightarrow> int \<Rightarrow> http_outcome) \<Rightarrow> store \<Rightarrow> run_result option"
where
  "main parse genre_response api engine =
     (let genre_results = extract_genre genre_response ''genres'' in
      if truthy genre_results then
        (case records_of genre_results of
           None \<Rightarrow> Some (Outside_model \<lparr>db = engine, fetched = []\<rparr>)
         | Some results \<Rightarrow>
             page_loop parse api
               \<lparr>db = load (transform_genre results) ''genres'' engine, fetched = []\<rparr> 1)
      else page_loop parse api \<lparr>db = engine, fetched = []\<rparr> 1)"

section \<open>Notions the properties are stated with\<close>

text \<open>
  The spec's reading of the status test: the first two decimal digits of the status
  code are 2 and 0, that is, cutting some number of trailing digits leaves 20.
\<close>

definition leading_digits_20 :: "nat \<Rightarrow> bool" where
  "leading_digits_20 n = (\<exists>k. n div 10 ^ k = 20)"

text \<open>
  A response that yields records for the loop: the extractor returns a truthy list of
  records together with the page bound \<open>bound\<close>, and the normalizer accepts the list.
\<close>

definition yields_records :: "(pyval \<Rightarrow> parsed) \<Rightarrow> http_outcome \<Rightarrow> pyval \<Rightarrow> bool" where
  "yields_records parse response bound =
     (case extract_movies response ''results'' of
        None \<Rightarrow> False
      | Some (movie_results, total_pages) \<Rightarrow>
          total_pages = bound \<and> truthy movie_results \<and>
          (case records_of movie_results of
             None \<Rightarrow> False
           | Some results \<Rightarrow> transform_movies parse results \<noteq> None))"

text \<open>
  The normalizer in the spec's words: a record is kept when it has an identifier and a
  genre-reference list; a kept record is flattened into one join row per genre
  reference that is not null; the columns below are removed from the movie relation,
  and the release date of a kept record is replaced by its parsed value.
\<close>

definition kept :: "pydict \<Rightarrow> bool" where
  "kept r = (\<not> isna (dict_get r ''id'') \<and> \<not> isna (dict_get r ''genre_ids''))"

definition join_rows :: "pydict \<Rightarrow> pydict list" where
  "join_rows r =
     map (\<lambda>g. [(''movie_id'', dict_get r ''id''), (''genre_id'', g)])
       (filter (\<lambda>g. \<not> isna g) (explode_values (dict_get r ''genre_ids'')))"

definition dropped_columns :: "string list" where
  "dropped_columns = [''backdrop_path'', ''poster_path'', ''video'', ''adult'', ''genre_ids'']"

definition movie_row :: "(pyval \<Rightarrow> parsed) \<Rightarrow> string list \<Rightarrow> pydict \<Rightarrow> pydict" where
  "movie_row parse cols r =
     map (\<lambda>c. (c, if c = ''release_date''
                   then the (to_datetime_value parse (dict_get r ''release_date''))
                   else dict_get r c))
       (filter (\<lambda>c. c \<notin> set dropped_columns) cols)"

text \<open>
  The two conflict rules on one proposed row: insert or overwrite the listed columns,
  and insert or leave.
\<close>

definition upsert :: "string list \<Rightarrow> db_row \<Rightarrow> table \<Rightarrow> table" where
  "upsert cs x tbl =
     (if list_ex (conflicts [''id''] x) tbl
      then map (\<lambda>old. if conflicts [''id''] x old then excluded_update cs x old else old) tbl
      else tbl @ [x])"

definition insert_new :: "string list \<Rightarrow> db_row \<Rightarrow> table \<Rightarrow> table" where
  "insert_new target x tbl = (if list_ex (conflicts target x) tbl then tbl else tbl @ [x])"

text \<open>
  What the store accepts. A statement with \<^verbatim>\<open>DO UPDATE\<close> on \<^verbatim>\<open>id\<close> goes through when no
  row it proposes has a NULL \<^verbatim>\<open>id\<close> and no two of them share one; a batch goes through
  when the statement is well-formed (it lists a column, and a column to set) and each
  of its pages of 100 rows does. \<open>qualified_name\<close> is the name \<^verbatim>\<open>to_sql\<close> gives the
  table in the schema \<^verbatim>\<open>etl_project\<close>.
\<close>

definition page_ok :: "db_row list \<Rightarrow> bool" where
  "page_ok p = (list_all (\<lambda>x. x ''id'' \<noteq> PNone) p \<and> distinct (map (\<lambda>x. x ''id'') p))"

definition accepted :: "string list \<Rightarrow> db_row list \<Rightarrow> bool" where
  "accepted keys xs =
     (keys \<noteq> [] \<and> filter (\<lambda>key. key \<noteq> ''id'') keys \<noteq> [] \<and> list_all page_ok (chunks 100 xs))"

definition qualified_name :: "string \<Rightarrow> string" where
  "qualified_name table_name = ''etl_project.'' @ table_name"

text \<open>
  A stored row after the rows of a batch were applied to it in order, each overwriting
  the listed columns when it conflicts on \<^verbatim>\<open>id\<close>; and the uniqueness a table has
  under a unique constraint on the target columns.
\<close>

definition row_after :: "string list \<Rightarrow> db_row list \<Rightarrow> db_row \<Rightarrow> db_row" where
  "row_after cs xs old =
     fold (\<lambda>x old. if conflicts [''id''] x old then excluded_update cs x old else old) xs old"


text \<open>
  A join relation in which every row has both of its keys, and the two loads of one
  page in the order \<^verbatim>\<open>main\<close> performs them.
\<close>

definition join_keys_present :: "frame \<Rightarrow> bool" where
  "join_keys_present df =
     list_all (\<lambda>r. \<not> isna (dict_get r ''movie_id'') \<and> \<not> isna (dict_get r ''genre_id'')) (rows df)"

definition load_page :: "frame \<Rightarrow> frame \<Rightarrow> store \<Rightarrow> store" where
  "load_page movies movie_genres engine =
     load (Some movie_genres) ''movie_genres'' (load (Some movies) ''movies'' engine)"

text \<open>
  A batch the normalizer can transform: each column label it names is a key of some
  record of the batch, and no kept record has a release date that is present and that
  the parser rejects.
\<close>

definition transformable :: "(pyval \<Rightarrow> parsed) \<Rightarrow> pydict list \<Rightarrow> bool" where
  "transformable parse results =
     (list_all (\<lambda>c. list_ex (\<lambda>r. c \<in> fst ` set r) results)
        [''id'', ''genre_ids'', ''release_date'', ''backdrop_path'', ''poster_path'',
         ''video'', ''adult'']
      \<and> list_all (\<lambda>r. kept r \<longrightarrow> isna (dict_get r ''release_date'')
                        \<or> parse (dict_get r ''release_date'') \<noteq> Unparseable) results)"

section \<open>The status test\<close>

lemma digit_cases: "d < 10 \<Longrightarrow> d \<in> {0,1,2,3,4,5,6,7,8,9::nat}"
  by auto

lemma digit_char_eq_2: "d < 10 \<Longrightarrow> digit_char d = CHR ''2'' \<longleftrightarrow> d = 2"
  using digit_cases[of d] by (auto simp: digit_char_def)

lemma digit_char_eq_0: "d < 10 \<Longrightarrow> digit_char d = CHR ''0'' \<longleftrightarrow> d = 0"
  using digit_cases[of d] by (auto simp: digit_char_def)

lemma str_nat_nonempty: "str_nat n \<noteq> []"
  by (induction n rule: str_nat.induct) (subst str_nat.simps, simp)

lemma str_nat_len2: "10 \<le> n \<Longrightarrow> 2 \<le> length (str_nat n)"
  using str_nat_nonempty[of "n div 10"]
  by (subst str_nat.simps) (cases "str_nat (n div 10)"; simp)

lemma startswith_20: "startswith (str_nat n) ''20'' \<longleftrightarrow> (\<exists>k. n div 10 ^ k = 20)"
proof (induction n rule: str_nat.induct)
  case (1 n)
  show ?case
  proof (cases "n < 10")
    case True
    have "n div 10 ^ k \<noteq> 20" for k
      using True div_le_dividend[of n "10 ^ k"] by linarith
    with True show ?thesis
      by (subst str_nat.simps) (simp add: startswith_def)
  next
    case False
    note big = this
    show ?thesis
    proof (cases "n div 10 < 10")
      case True
      have l: "(\<exists>k. n div 10 ^ k = 20) \<longleftrightarrow> n = 20"
      proof
        assume "\<exists>k. n div 10 ^ k = 20"
        then obtain k where k: "n div 10 ^ k = 20" ..
        show "n = 20"
        proof (cases k)
          case 0 with k show ?thesis by simp
        next
          case (Suc j)
          have "n div 10 ^ k = (n div 10) div 10 ^ j"
            by (simp add: Suc div_mult2_eq)
          also have "\<dots> \<le> n div 10" by (rule div_le_dividend)
          finally show ?thesis using True k by linarith
        qed
      next
        assume "n = 20" then have "n div 10 ^ 0 = 20" by simp
        then show "\<exists>k. n div 10 ^ k = 20" by blast
      qed
      have "str_nat n = [digit_char (n div 10), digit_char (n mod 10)]"
        using True big by (subst str_nat.simps, subst str_nat.simps) simp
      then have "startswith (str_nat n) ''20'' \<longleftrightarrow> n div 10 = 2 \<and> n mod 10 = 0"
        using True by (simp add: startswith_def digit_char_eq_2 digit_char_eq_0)
      also have "\<dots> \<longleftrightarrow> n = 20" by presburger
      finally show ?thesis using l by simp
    next
      case False
      then have len: "2 \<le> length (str_nat (n div 10))"
        by (simp add: str_nat_len2)
      have "startswith (str_nat n) ''20'' \<longleftrightarrow> startswith (str_nat (n div 10)) ''20''"
        using big len by (subst str_nat.simps) (simp add: startswith_def)
      also have "\<dots> \<longleftrightarrow> (\<exists>k. (n div 10) div 10 ^ k = 20)"
        using 1 big by simp
      also have "\<dots> \<longleftrightarrow> (\<exists>k. n div 10 ^ k = 20)"
      proof
        assume "\<exists>k. (n div 10) div 10 ^ k = 20"
        then obtain k where "(n div 10) div 10 ^ k = 20" ..
        then have "n div 10 ^ Suc k = 20" by (simp add: div_mult2_eq)
        then show "\<exists>k. n div 10 ^ k = 20" by blast
      next
        assume "\<exists>k. n div 10 ^ k = 20"
        then obtain k where k: "n div 10 ^ k = 20" ..
        show "\<exists>k. (n div 10) div 10 ^ k = 20"
        proof (cases k)
          case 0 with k False show ?thesis by simp
        next
          case (Suc j)
          with k have "(n div 10) div 10 ^ j = 20" by (simp add: div_mult2_eq)
          then show ?thesis by blast
        qed
      qed
      finally show ?thesis .
    qed
  qed
qed

section \<open>The pagination loop\<close>

lemma page_step_yields:
  assumes "yields_records parse response bound"
  shows "\<exists>st'. fetched st' = fetched st @ [p] \<and>
           page_step parse response st p =
             (case py_ge p bound of
                None \<Rightarrow> Stop (Uncaught_TypeError st')
              | Some True \<Rightarrow> Stop (Completed st')
              | Some False \<Rightarrow> Next_page st' (p + 1))"
proof -
  from assms obtain v results movies movie_genres where
    ex: "extract_movies response ''results'' = Some (v, bound)" and tr: "truthy v"
    and rs: "records_of v = Some results"
    and tm: "transform_movies parse results = Some (movies, movie_genres)"
    by (auto simp: yields_records_def split: option.splits prod.splits)
  let ?st' = "st\<lparr>fetched := fetched st @ [p],
                  db := load (Some movie_genres) ''movie_genres''
                          (load (Some movies) ''movies'' (db st))\<rparr>"
  have "page_step parse response st p =
          (case py_ge p bound of
             None \<Rightarrow> Stop (Uncaught_TypeError ?st')
           | Some True \<Rightarrow> Stop (Completed ?st')
           | Some False \<Rightarrow> Next_page ?st' (p + 1))"
    using ex tr rs tm by (simp add: page_step_def Let_def split: option.splits bool.splits)
  moreover have "fetched ?st' = fetched st @ [p]" by simp
  ultimately show ?thesis by blast
qed

lemma page_step_empty:
  assumes "extract_movies response ''results'' = Some (v, t)" and "\<not> truthy v"
  shows "page_step parse response st p = Next_page (st\<lparr>fetched := fetched st @ [p]\<rparr>) p"
  using assms by (simp add: page_step_def)

lemma page_loop_bounded:
  assumes "\<And>n q. yields_records parse (api n q) (PInt N)"
  shows "\<exists>st'. page_loop parse api st p = Some (Completed st') \<and>
               fetched st' = fetched st @ [p..max p N]"
proof (induction "nat (N - p)" arbitrary: st p)
  case 0
  then have le: "N \<le> p" by simp
  obtain st' where st': "fetched st' = fetched st @ [p]"
    "page_step parse (api (length (fetched st)) p) st p =
       (case py_ge p (PInt N) of None \<Rightarrow> Stop (Uncaught_TypeError st')
        | Some True \<Rightarrow> Stop (Completed st') | Some False \<Rightarrow> Next_page st' (p + 1))"
    using page_step_yields[OF assms] by blast
  from le have "max p N = p" by simp
  with st' le show ?case
    by (subst page_loop.simps) simp
next
  case (Suc k)
  then have lt: "p < N" by linarith
  obtain st' where st': "fetched st' = fetched st @ [p]"
    "page_step parse (api (length (fetched st)) p) st p =
       (case py_ge p (PInt N) of None \<Rightarrow> Stop (Uncaught_TypeError st')
        | Some True \<Rightarrow> Stop (Completed st') | Some False \<Rightarrow> Next_page st' (p + 1))"
    using page_step_yields[OF assms] by blast
  from Suc have "k = nat (N - (p + 1))" by linarith
  from Suc.hyps(1)[OF this, of st'] obtain st'' where
    st'': "page_loop parse api st' (p + 1) = Some (Completed st'')"
      "fetched st'' = fetched st' @ [p + 1..max (p + 1) N]"
    by blast
  have "[p..max p N] = p # [p + 1..max (p + 1) N]"
    using lt by (simp add: upto_rec1 max_def)
  with st' st'' lt show ?case
    by (subst page_loop.simps) simp
qed

lemma page_loop_returns_not_always_empty:
  assumes ret: "page_loop parse api st p = Some y"
  shows "\<not> (\<forall>n. \<exists>v t. extract_movies (api n p) ''results'' = Some (v, t) \<and> \<not> truthy v)"
proof (rule page_loop.raw_induct
    [where P = "\<lambda>parse api st p y.
       \<not> (\<forall>n. \<exists>v t. extract_movies (api n p) ''results'' = Some (v, t) \<and> \<not> truthy v)",
     OF _ ret])
  fix f parse api st p y
  assume IH: "\<And>parse api st p y. f parse api st p = Some y \<Longrightarrow>
      \<not> (\<forall>n. \<exists>v t. extract_movies (api n p) ''results'' = Some (v, t) \<and> \<not> truthy v)"
    and step: "(case page_step parse (api (length (fetched st)) p) st p of
                  Next_page st' p' \<Rightarrow> f parse api st' p'
                | Stop r \<Rightarrow> Some r) = Some y"
  show "\<not> (\<forall>n. \<exists>v t. extract_movies (api n p) ''results'' = Some (v, t) \<and> \<not> truthy v)"
  proof
    assume bad: "\<forall>n. \<exists>v t. extract_movies (api n p) ''results'' = Some (v, t) \<and> \<not> truthy v"
    then obtain v t where
      "extract_movies (api (length (fetched st)) p) ''results'' = Some (v, t)" "\<not> truthy v"
      by blast
    then have "page_step parse (api (length (fetched st)) p) st p =
                 Next_page (st\<lparr>fetched := fetched st @ [p]\<rparr>) p"
      by (rule page_step_empty)
    with step have "f parse api (st\<lparr>fetched := fetched st @ [p]\<rparr>) p = Some y" by simp
    from IH[OF this] bad show False by blast
  qed
qed

lemma page_loop_diverges:
  assumes "\<forall>n. \<exists>v t. extract_movies (api n p) ''results'' = Some (v, t) \<and> \<not> truthy v"
  shows "page_loop parse api st p = None"
  using assms page_loop_returns_not_always_empty[of parse api st p]
  by (cases "page_loop parse api st p") auto

section \<open>The normalizer, step by step\<close>

lemma dict_get_tabulate:
  "dict_get (map (\<lambda>c. (c, f c)) cs) c = (if c \<in> set cs then f c else PNone)"
  by (induction cs) (auto simp: dict_get_def)

lemma dict_get_Cons: "dict_get ((k, v) # r) c = (if c = k then v else dict_get r c)"
  by (simp add: dict_get_def)

lemma dict_get_Nil: "dict_get [] c = PNone"
  by (simp add: dict_get_def)

lemma those_map:
  "those (map f xs) = (if \<forall>x\<in>set xs. f x \<noteq> None then Some (map (\<lambda>x. the (f x)) xs) else None)"
  by (induction xs) (auto split: option.splits)

lemma set_cell_tabulate:
  "set_cell c v (map (\<lambda>k. (k, f k)) cs) = map (\<lambda>k. (k, if k = c then v else f k)) cs"
  by (simp add: set_cell_def)

lemma filter_tabulate:
  "filter (\<lambda>(k, x). P k) (map (\<lambda>k. (k, f k)) cs) = map (\<lambda>k. (k, f k)) (filter P cs)"
  by (induction cs) auto

lemma transform_movies_char:
  fixes parse results
  defines "cols \<equiv> columns (DataFrame results)"
  shows "transform_movies parse results =
     (if set [''id'', ''genre_ids'', ''release_date'', ''backdrop_path'', ''poster_path'',
              ''video'', ''adult''] \<subseteq> set cols
         \<and> (\<forall>r \<in> set (filter kept results).
               to_datetime_value parse (dict_get r ''release_date'') \<noteq> None)
      then Some (\<lparr>columns = filter (\<lambda>c. c \<notin> set dropped_columns) cols,
                  rows = map (movie_row parse cols) (filter kept results)\<rparr>,
                 \<lparr>columns = [''movie_id'', ''genre_id''],
                  rows = concat (map join_rows (filter kept results))\<rparr>)
      else None)"
proof -
  let ?row = "\<lambda>r. map (\<lambda>c. (c, dict_get r c)) cols"
  have df0: "DataFrame results = \<lparr>columns = cols, rows = map ?row results\<rparr>"
    by (simp add: cols_def DataFrame_def Let_def)
  show ?thesis
  proof (cases "''id'' \<in> set cols \<and> ''genre_ids'' \<in> set cols")
    case False
    then show ?thesis
      by (cases "''id'' \<in> set cols") (simp_all add: transform_movies_def df0 dropna_def Let_def)
  next
    case True
    then have id: "''id'' \<in> set cols" and gi: "''genre_ids'' \<in> set cols" by simp_all
    have d1: "dropna ''id'' \<lparr>columns = cols, rows = map ?row results\<rparr> =
        Some \<lparr>columns = cols, rows = map ?row (filter (\<lambda>r. \<not> isna (dict_get r ''id'')) results)\<rparr>"
      using id by (simp add: dropna_def filter_map comp_def dict_get_tabulate)
    have d2: "dropna ''genre_ids''
         \<lparr>columns = cols, rows = map ?row (filter (\<lambda>r. \<not> isna (dict_get r ''id'')) results)\<rparr> =
        Some \<lparr>columns = cols, rows = map ?row (filter kept results)\<rparr>"
      using gi by (simp add: dropna_def filter_map comp_def dict_get_tabulate kept_def[abs_def])
    have mg: "loc_columns [''id'', ''genre_ids''] \<lparr>columns = cols, rows = map ?row (filter kept results)\<rparr> =
        Some \<lparr>columns = [''id'', ''genre_ids''],
              rows = map (\<lambda>r. [(''id'', dict_get r ''id''), (''genre_ids'', dict_get r ''genre_ids'')])
                       (filter kept results)\<rparr>"
      using id gi by (simp add: loc_columns_def comp_def dict_get_tabulate)
    have ex: "explode ''genre_ids'' \<lparr>columns = [''id'', ''genre_ids''],
              rows = map (\<lambda>r. [(''id'', dict_get r ''id''), (''genre_ids'', dict_get r ''genre_ids'')])
                       (filter kept results)\<rparr> =
         \<lparr>columns = [''id'', ''genre_ids''],
          rows = concat (map (\<lambda>r. map (\<lambda>g. [(''id'', dict_get r ''id''), (''genre_ids'', g)])
                                    (explode_values (dict_get r ''genre_ids'')))
                          (filter kept results))\<rparr>"
      by (simp add: explode_def comp_def set_cell_def dict_get_Cons)
    have rn: "rename [(''id'', ''movie_id''), (''genre_ids'', ''genre_id'')]
         \<lparr>columns = [''id'', ''genre_ids''],
          rows = concat (map (\<lambda>r. map (\<lambda>g. [(''id'', dict_get r ''id''), (''genre_ids'', g)])
                                    (explode_values (dict_get r ''genre_ids'')))
                          (filter kept results))\<rparr> =
         \<lparr>columns = [''movie_id'', ''genre_id''],
          rows = concat (map (\<lambda>r. map (\<lambda>g. [(''movie_id'', dict_get r ''id''), (''genre_id'', g)])
                                    (explode_values (dict_get r ''genre_ids'')))
                          (filter kept results))\<rparr>"
      by (simp add: rename_def renamed_def map_concat comp_def)
    have d3: "dropna ''genre_id''
         \<lparr>columns = [''movie_id'', ''genre_id''],
          rows = concat (map (\<lambda>r. map (\<lambda>g. [(''movie_id'', dict_get r ''id''), (''genre_id'', g)])
                                    (explode_values (dict_get r ''genre_ids'')))
                          (filter kept results))\<rparr> =
         Some \<lparr>columns = [''movie_id'', ''genre_id''],
               rows = concat (map join_rows (filter kept results))\<rparr>"
      by (simp add: dropna_def filter_concat comp_def filter_map join_rows_def[abs_def] dict_get_Cons)
    have tm: "transform_movies parse results =
        do {
          release_date \<leftarrow> get_column ''release_date'' \<lparr>columns = cols, rows = map ?row (filter kept results)\<rparr>;
          release_date \<leftarrow> to_datetime parse release_date;
          let df = set_column ''release_date'' release_date \<lparr>columns = cols, rows = map ?row (filter kept results)\<rparr>;
          df \<leftarrow> drop_columns [''backdrop_path'', ''poster_path'', ''video'', ''adult'', ''genre_ids''] df;
          Some (df, \<lparr>columns = [''movie_id'', ''genre_id''],
                 rows = concat (map join_rows (filter kept results))\<rparr>)
        }"
      unfolding transform_movies_def by (simp add: df0 d1 d2 mg ex rn d3 reset_index_def)
    show ?thesis
    proof (cases "''release_date'' \<in> set cols")
      case False
      then show ?thesis by (simp add: tm get_column_def)
    next
      case rd: True
      have gc: "get_column ''release_date'' \<lparr>columns = cols, rows = map ?row (filter kept results)\<rparr> =
          Some (map (\<lambda>r. dict_get r ''release_date'') (filter kept results))"
        using rd by (simp add: get_column_def comp_def dict_get_tabulate)
      show ?thesis
      proof (cases "\<forall>r \<in> set (filter kept results).
               to_datetime_value parse (dict_get r ''release_date'') \<noteq> None")
        case False
        then have "to_datetime parse (map (\<lambda>r. dict_get r ''release_date'') (filter kept results)) = None"
          by (auto simp: to_datetime_def those_map comp_def)
        with False show ?thesis by (simp add: tm gc)
      next
        case ok: True
        then have td: "to_datetime parse (map (\<lambda>r. dict_get r ''release_date'') (filter kept results)) =
           Some (map (\<lambda>r. the (to_datetime_value parse (dict_get r ''release_date''))) (filter kept results))"
          by (auto simp: to_datetime_def those_map comp_def)
        have sc: "set_column ''release_date''
            (map (\<lambda>r. the (to_datetime_value parse (dict_get r ''release_date''))) (filter kept results))
            \<lparr>columns = cols, rows = map ?row (filter kept results)\<rparr> =
            \<lparr>columns = cols,
             rows = map (\<lambda>r. map (\<lambda>c. (c, if c = ''release_date''
                     then the (to_datetime_value parse (dict_get r ''release_date''))
                     else dict_get r c)) cols) (filter kept results)\<rparr>"
          using rd by (simp add: set_column_def map2_map_map set_cell_tabulate)
        have dc: "drop_columns [''backdrop_path'', ''poster_path'', ''video'', ''adult'', ''genre_ids'']
            \<lparr>columns = cols,
             rows = map (\<lambda>r. map (\<lambda>c. (c, if c = ''release_date''
                     then the (to_datetime_value parse (dict_get r ''release_date''))
                     else dict_get r c)) cols) (filter kept results)\<rparr> =
            (if set [''backdrop_path'', ''poster_path'', ''video'', ''adult''] \<subseteq> set cols
             then Some \<lparr>columns = filter (\<lambda>c. c \<notin> set dropped_columns) cols,
                        rows = map (movie_row parse cols) (filter kept results)\<rparr>
             else None)"
          using gi
          by (simp add: drop_columns_def dropped_columns_def movie_row_def[abs_def] comp_def
              filter_tabulate[where P = "\<lambda>k. k \<noteq> ''backdrop_path'' \<and> k \<noteq> ''poster_path'' \<and> k \<noteq> ''video'' \<and> k \<noteq> ''adult'' \<and> k \<noteq> ''genre_ids''"])
        show ?thesis
          using ok rd id gi by (simp add: tm gc td sc dc)
      qed
    qed
  qed
qed

lemma dict_get_movie_row:
  assumes "c \<in> set cols" and "c \<notin> set dropped_columns"
  shows "dict_get (movie_row parse cols r) c =
           (if c = ''release_date''
            then the (to_datetime_value parse (dict_get r ''release_date''))
            else dict_get r c)"
  using assms by (simp add: movie_row_def dict_get_tabulate)

lemma columns_DataFrame:
  "c \<in> set (columns (DataFrame results)) \<longleftrightarrow> list_ex (\<lambda>r. c \<in> fst ` set r) results"
  by (auto simp: DataFrame_def Let_def list_ex_iff)

lemma to_datetime_value_None:
  "to_datetime_value parse v = None \<longleftrightarrow> \<not> isna v \<and> parse v = Unparseable"
  by (auto simp: to_datetime_value_def split: parsed.splits)

lemma transformable_iff:
  "transformable parse results \<longleftrightarrow>
     set [''id'', ''genre_ids'', ''release_date'', ''backdrop_path'', ''poster_path'',
          ''video'', ''adult''] \<subseteq> set (columns (DataFrame results))
     \<and> (\<forall>r \<in> set (filter kept results).
           to_datetime_value parse (dict_get r ''release_date'') \<noteq> None)"
proof -
  have "(\<forall>r \<in> set (filter kept results).
           to_datetime_value parse (dict_get r ''release_date'') \<noteq> None)
        \<longleftrightarrow> list_all (\<lambda>r. kept r \<longrightarrow> isna (dict_get r ''release_date'')
                        \<or> parse (dict_get r ''release_date'') \<noteq> Unparseable) results"
    by (auto simp: list_all_iff to_datetime_value_None)
  then show ?thesis
    by (simp add: transformable_def columns_DataFrame)
qed

lemma transform_movies_Some_iff:
  "transform_movies parse results \<noteq> None \<longleftrightarrow> transformable parse results"
  unfolding transformable_iff by (simp add: transform_movies_char)

section \<open>The loader, statement by statement\<close>

lemma conflicts_id: "conflicts [''id''] x old \<longleftrightarrow> x ''id'' \<noteq> PNone \<and> old ''id'' = x ''id''"
  by (simp add: conflicts_def)

lemma excluded_update_id:
  "conflicts [''id''] x old \<Longrightarrow> excluded_update cs x old ''id'' = old ''id''"
  by (simp add: conflicts_id excluded_update_def)

lemma exec_rows_update_ok:
  assumes "conflict_target stmt = [''id'']" and "conflict_action stmt = DO_UPDATE_SET cs"
    and "\<forall>x\<in>set xs. x ''id'' \<noteq> PNone" and "distinct (map (\<lambda>x. x ''id'') xs)"
    and "\<forall>x\<in>set xs. [x ''id''] \<notin> set touched"
  shows "exec_rows [''id''] stmt xs touched tbl = Inr (fold (upsert cs) xs tbl)"
  using assms(3-5)
proof (induction xs arbitrary: touched tbl)
  case Nil
  show ?case by simp
next
  case (Cons x xs)
  have fresh: "\<forall>y\<in>set xs. [y ''id''] \<notin> set ([x ''id''] # touched)"
  proof
    fix y assume y: "y \<in> set xs"
    then have "y ''id'' \<in> (\<lambda>x. x ''id'') ` set xs" by (rule imageI)
    moreover have "x ''id'' \<notin> (\<lambda>x. x ''id'') ` set xs"
      using Cons.prems(2) by simp
    ultimately have "y ''id'' \<noteq> x ''id''" by metis
    moreover have "[y ''id''] \<notin> set touched"
      using Cons.prems(3) y by simp
    ultimately show "[y ''id''] \<notin> set ([x ''id''] # touched)" by simp
  qed
  have rest: "\<forall>y\<in>set xs. y ''id'' \<noteq> PNone" "distinct (map (\<lambda>x. x ''id'') xs)"
    using Cons.prems by auto
  show ?case
  proof (cases "list_ex (conflicts [''id''] x) tbl")
    case True
    then show ?thesis
      using Cons.prems assms(1,2) Cons.IH[OF rest fresh]
      by (simp add: upsert_def)
  next
    case False
    then show ?thesis
      using Cons.prems assms(1,2) Cons.IH[OF rest fresh]
      by (simp add: upsert_def)
  qed
qed

lemma exec_rows_update_Inr:
  assumes "conflict_target stmt = [''id'']" and "conflict_action stmt = DO_UPDATE_SET cs"
    and "exec_rows [''id''] stmt xs touched tbl = Inr tbl'"
    and "\<forall>k\<in>set touched. \<exists>old\<in>set tbl. k = [old ''id'']"
  shows "(\<forall>x\<in>set xs. x ''id'' \<noteq> PNone) \<and> distinct (map (\<lambda>x. x ''id'') xs)
         \<and> (\<forall>x\<in>set xs. [x ''id''] \<notin> set touched)"
  using assms(3,4)
proof (induction xs arbitrary: touched tbl)
  case Nil
  show ?case by simp
next
  case (Cons x xs)
  from Cons.prems(1) have nn: "x ''id'' \<noteq> PNone"
    by (auto split: if_splits)
  show ?case
  proof (cases "list_ex (conflicts [''id''] x) tbl")
    case True
    let ?tbl = "map (\<lambda>old. if conflicts [''id''] x old then excluded_update cs x old else old) tbl"
    from True Cons.prems(1) nn assms(1,2) have nt: "[x ''id''] \<notin> set touched"
      and run: "exec_rows [''id''] stmt xs ([x ''id''] # touched) ?tbl = Inr tbl'"
      by (auto split: if_splits)
    have ids: "map (\<lambda>r. r ''id'') ?tbl = map (\<lambda>r. r ''id'') tbl"
      by (simp add: excluded_update_id)
    have "\<exists>old\<in>set tbl. old ''id'' = x ''id''"
      using True by (auto simp: list_ex_iff conflicts_id)
    moreover have "(\<lambda>r. r ''id'') ` set ?tbl = (\<lambda>r. r ''id'') ` set tbl"
      using ids by (metis set_map)
    ultimately have inv: "\<forall>k\<in>set ([x ''id''] # touched). \<exists>old\<in>set ?tbl. k = [old ''id'']"
    proof (intro ballI)
      fix k assume k: "k \<in> set ([x ''id''] # touched)"
      obtain old0 where old0: "old0 \<in> set tbl" "old0 ''id'' = x ''id''"
        using \<open>\<exists>old\<in>set tbl. old ''id'' = x ''id''\<close> by blast
      have "\<exists>old\<in>set tbl. k = [old ''id'']"
      proof (cases "k = [x ''id'']")
        case True
        with old0 show ?thesis by (intro bexI[of _ old0]) simp_all
      next
        case False
        with k have "k \<in> set touched" by simp
        with Cons.prems(2) show ?thesis by blast
      qed
      then obtain old where "old \<in> set tbl" "k = [old ''id'']" by blast
      then have "old ''id'' \<in> (\<lambda>r. r ''id'') ` set ?tbl"
        using \<open>(\<lambda>r. r ''id'') ` set ?tbl = (\<lambda>r. r ''id'') ` set tbl\<close> by blast
      then obtain new where "new \<in> set ?tbl" "old ''id'' = new ''id''" by blast
      with \<open>k = [old ''id'']\<close> show "\<exists>old\<in>set ?tbl. k = [old ''id'']" by auto
    qed
    from Cons.IH[OF run inv] nn nt show ?thesis by auto
  next
    case False
    from False Cons.prems(1) nn assms(1,2)
    have run: "exec_rows [''id''] stmt xs ([x ''id''] # touched) (tbl @ [x]) = Inr tbl'"
      by (auto split: if_splits)
    have nt: "[x ''id''] \<notin> set touched"
    proof
      assume "[x ''id''] \<in> set touched"
      then obtain old where "old \<in> set tbl" "[x ''id''] = [old ''id'']"
        using Cons.prems(2) by blast
      with nn have "list_ex (conflicts [''id''] x) tbl"
        by (auto simp: list_ex_iff conflicts_id)
      with False show False by simp
    qed
    have inv: "\<forall>k\<in>set ([x ''id''] # touched). \<exists>old\<in>set (tbl @ [x]). k = [old ''id'']"
      using Cons.prems(2) by auto
    from Cons.IH[OF run inv] nn nt show ?thesis by auto
  qed
qed

lemma exec_rows_update_iff:
  assumes "conflict_target stmt = [''id'']" and "conflict_action stmt = DO_UPDATE_SET cs"
  shows "exec_rows [''id''] stmt xs [] tbl = Inr tbl' \<longleftrightarrow>
           page_ok xs \<and> tbl' = fold (upsert cs) xs tbl"
proof
  assume r: "exec_rows [''id''] stmt xs [] tbl = Inr tbl'"
  from exec_rows_update_Inr[OF assms r] have ok: "page_ok xs"
    by (simp add: page_ok_def list_all_iff)
  then have "exec_rows [''id''] stmt xs [] tbl = Inr (fold (upsert cs) xs tbl)"
    by (intro exec_rows_update_ok[OF assms]) (simp_all add: page_ok_def list_all_iff)
  with r ok show "page_ok xs \<and> tbl' = fold (upsert cs) xs tbl" by simp
next
  assume "page_ok xs \<and> tbl' = fold (upsert cs) xs tbl"
  then show "exec_rows [''id''] stmt xs [] tbl = Inr tbl'"
    using exec_rows_update_ok[OF assms, of xs "[]" tbl]
    by (simp add: page_ok_def list_all_iff)
qed

lemma exec_rows_nothing:
  assumes "conflict_action stmt = DO_NOTHING"
  shows "exec_rows [] stmt xs touched tbl = Inr (fold (insert_new (conflict_target stmt)) xs tbl)"
  using assms
  by (induction xs arbitrary: touched tbl) (simp_all add: insert_new_def)

lemma concat_chunks: "0 < n \<Longrightarrow> concat (chunks n xs) = xs"
proof (induction n xs rule: chunks.induct)
  case (1 n xs)
  then show ?case
    by (subst chunks.simps) auto
qed

lemma fold_fold_concat: "fold (fold f) ps tbl = fold f (concat ps) tbl"
  by (induction ps arbitrary: tbl) simp_all

lemma run_pages_update_iff:
  assumes "conflict_target stmt = [''id'']" and "conflict_action stmt = DO_UPDATE_SET cs"
    and "insert_columns stmt \<noteq> []" and "cs \<noteq> []"
  shows "run_pages [''id''] stmt ps tbl = Inr tbl' \<longleftrightarrow>
           list_all page_ok ps \<and> tbl' = fold (upsert cs) (concat ps) tbl"
proof (induction ps arbitrary: tbl)
  case Nil
  show ?case by auto
next
  case (Cons p ps)
  show ?case
  proof (cases "exec_rows [''id''] stmt p [] tbl")
    case (Inl e)
    then have "\<not> page_ok p"
      using exec_rows_update_iff[OF assms(1,2), of p tbl "fold (upsert cs) p tbl"] by auto
    with Inl show ?thesis
      using assms by (simp add: exec_statement_def)
  next
    case (Inr t1)
    then have "page_ok p" "t1 = fold (upsert cs) p tbl"
      using exec_rows_update_iff[OF assms(1,2), of p tbl t1] by auto
    with Inr show ?thesis
      using assms Cons.IH[of t1] by (simp add: exec_statement_def)
  qed
qed

lemma run_pages_nothing:
  assumes "conflict_action stmt = DO_NOTHING" and "insert_columns stmt \<noteq> []"
  shows "run_pages [] stmt ps tbl = Inr (fold (insert_new (conflict_target stmt)) (concat ps) tbl)"
  using assms
  by (induction ps arbitrary: tbl) (simp_all add: exec_statement_def exec_rows_nothing)

lemma load_update:
  assumes "table_name \<noteq> ''movie_genres''" and "rows df \<noteq> []"
  shows "load (Some df) table_name engine =
     (if accepted (columns df) (map dict_get (rows df))
      then engine(qualified_name table_name :=
             fold (upsert (filter (\<lambda>key. key \<noteq> ''id'') (columns df))) (map dict_get (rows df))
               (engine (qualified_name table_name)))
      else engine)"
proof -
  let ?t = "\<lparr>schema = Some ''etl_project'', name = table_name\<rparr>"
  let ?stmt = "insert_stmt ?t (columns df)"
  let ?cs = "filter (\<lambda>key. key \<noteq> ''id'') (columns df)"
  have st: "conflict_target ?stmt = [''id'']" "conflict_action ?stmt = DO_UPDATE_SET ?cs"
    "insert_columns ?stmt = columns df" "into_table ?stmt = qualified_name table_name"
    using assms(1) by (simp_all add: insert_stmt_def qualified_name_def)
  have nn: "not_null_columns ?t = [''id'']"
    using assms(1) by (simp add: not_null_columns_def)
  show ?thesis
  proof (cases "columns df \<noteq> [] \<and> ?cs \<noteq> []")
    case True
    then have iff: "run_pages [''id''] ?stmt ps tbl = Inr tbl' \<longleftrightarrow>
           list_all page_ok ps \<and> tbl' = fold (upsert ?cs) (concat ps) tbl" for ps tbl tbl'
      using run_pages_update_iff[OF st(1,2), of ps tbl tbl'] st(3) by simp
    show ?thesis
    proof (cases "execute_values [''id''] ?stmt (map dict_get (rows df)) (engine (qualified_name table_name))")
      case (Inl e)
      then have "\<not> list_all page_ok (chunks 100 (map dict_get (rows df)))"
        using iff[of "chunks 100 (map dict_get (rows df))" "engine (qualified_name table_name)"]
        by (auto simp: execute_values_def)
      with Inl True show ?thesis
        using assms(2) by (simp add: load_def insert_on_conflict_update_def Let_def st nn accepted_def)
    next
      case (Inr t1)
      then have "list_all page_ok (chunks 100 (map dict_get (rows df)))"
        "t1 = fold (upsert ?cs) (map dict_get (rows df)) (engine (qualified_name table_name))"
        using iff[of "chunks 100 (map dict_get (rows df))" "engine (qualified_name table_name)" t1]
        by (auto simp: execute_values_def concat_chunks)
      with Inr True show ?thesis
        using assms(2) by (simp add: load_def insert_on_conflict_update_def Let_def st nn accepted_def)
    qed
  next
    case False
    then have "execute_values [''id''] ?stmt xs tbl = Inl Syntax_error \<or> xs = []" for xs tbl
      using st False unfolding execute_values_def
      by (subst chunks.simps) (auto simp: exec_statement_def)
    from this[of "map dict_get (rows df)" "engine (qualified_name table_name)"]
    have "execute_values [''id''] ?stmt (map dict_get (rows df)) (engine (qualified_name table_name))
            = Inl Syntax_error"
      using assms(2) by simp
    moreover have "\<not> accepted (columns df) (map dict_get (rows df))"
      using False by (auto simp: accepted_def)
    ultimately show ?thesis
      using assms(2)
      by (simp add: load_def insert_on_conflict_update_def Let_def st nn)
  qed
qed

lemma load_nothing:
  assumes "rows df \<noteq> []" and "columns df \<noteq> []"
  shows "load (Some df) ''movie_genres'' engine =
     engine(qualified_name ''movie_genres'' :=
       fold (insert_new [''movie_id'', ''genre_id'']) (map dict_get (rows df))
         (engine (qualified_name ''movie_genres'')))"
proof -
  let ?t = "\<lparr>schema = Some ''etl_project'', name = ''movie_genres''\<rparr>"
  let ?stmt = "insert_stmt ?t (columns df)"
  have st: "conflict_target ?stmt = [''movie_id'', ''genre_id'']" "conflict_action ?stmt = DO_NOTHING"
    "insert_columns ?stmt = columns df" "into_table ?stmt = qualified_name ''movie_genres''"
    by (simp_all add: insert_stmt_def qualified_name_def)
  have nn: "not_null_columns ?t = []"
    by (simp add: not_null_columns_def)
  show ?thesis
    using assms run_pages_nothing[of ?stmt "chunks 100 (map dict_get (rows df))" "engine (qualified_name ''movie_genres'')"]
    by (simp add: load_def insert_on_conflict_update_def Let_def st nn execute_values_def concat_chunks)
qed

section \<open>The two conflict rules over a batch\<close>

subsection \<open>Insert or overwrite\<close>

lemma row_after_Nil: "row_after cs [] old = old"
  by (simp add: row_after_def)

lemma row_after_Cons:
  "row_after cs (x # xs) old =
     row_after cs xs (if conflicts [''id''] x old then excluded_update cs x old else old)"
  by (simp add: row_after_def)

lemma row_after_snoc:
  "row_after cs (xs @ [x]) old =
     (if conflicts [''id''] x (row_after cs xs old)
      then excluded_update cs x (row_after cs xs old) else row_after cs xs old)"
  by (simp add: row_after_def)

lemma row_after_id: "row_after cs xs old ''id'' = old ''id''"
  by (induction xs arbitrary: old) (simp_all add: row_after_Nil row_after_Cons excluded_update_id)

lemma row_after_frame: "c \<notin> set cs \<Longrightarrow> row_after cs xs old c = old c"
  by (induction xs arbitrary: old) (simp_all add: row_after_Nil row_after_Cons excluded_update_def)

lemma conflicts_row_after: "conflicts [''id''] y (row_after cs xs old) = conflicts [''id''] y old"
  by (simp add: conflicts_id row_after_id)

lemma conflicts_excluded: 
  "conflicts [''id''] x old \<Longrightarrow> conflicts [''id''] y (excluded_update cs x old) = conflicts [''id''] y old"
  by (simp add: conflicts_id excluded_update_id)

lemma list_ex_overwritten:
  "list_ex (conflicts [''id''] y)
     (map (\<lambda>old. if conflicts [''id''] x old then excluded_update cs x old else old) tbl)
   = list_ex (conflicts [''id''] y) tbl"
proof -
  have "conflicts [''id''] y (if conflicts [''id''] x old then excluded_update cs x old else old)
          = conflicts [''id''] y old" for old
    by (simp add: conflicts_excluded)
  then show ?thesis
    by (induction tbl) simp_all
qed

lemma list_ex_upsert:
  "list_ex (conflicts [''id''] y) (upsert cs x tbl) \<longleftrightarrow>
     list_ex (conflicts [''id''] y) tbl \<or> conflicts [''id''] y x"
proof (cases "list_ex (conflicts [''id''] x) tbl")
  case True
  then obtain old where old: "old \<in> set tbl" "conflicts [''id''] x old"
    by (auto simp: list_ex_iff)
  have "list_ex (conflicts [''id''] y) (upsert cs x tbl) \<longleftrightarrow> list_ex (conflicts [''id''] y) tbl"
    using True by (simp add: upsert_def list_ex_overwritten)
  moreover have "conflicts [''id''] y x \<Longrightarrow> list_ex (conflicts [''id''] y) tbl"
  proof -
    assume "conflicts [''id''] y x"
    with old(2) have "conflicts [''id''] y old" by (simp add: conflicts_id)
    with old(1) show ?thesis by (auto simp: list_ex_iff)
  qed
  ultimately show ?thesis by auto
next
  case False
  then show ?thesis by (simp add: upsert_def)
qed

lemma list_ex_fold_upsert:
  "list_ex (conflicts [''id''] y) (fold (upsert cs) xs tbl) \<longleftrightarrow>
     list_ex (conflicts [''id''] y) tbl \<or> list_ex (conflicts [''id''] y) xs"
  by (induction xs arbitrary: tbl) (auto simp: list_ex_upsert)

lemma fold_upsert_present:
  assumes "\<forall>x\<in>set xs. list_ex (conflicts [''id''] x) tbl"
  shows "fold (upsert cs) xs tbl = map (row_after cs xs) tbl"
  using assms
proof (induction xs arbitrary: tbl)
  case Nil
  show ?case by (simp add: row_after_Nil[abs_def])
next
  case (Cons x xs)
  let ?t1 = "map (\<lambda>old. if conflicts [''id''] x old then excluded_update cs x old else old) tbl"
  have u: "upsert cs x tbl = ?t1"
    using Cons.prems by (simp add: upsert_def)
  have "\<forall>y\<in>set xs. list_ex (conflicts [''id''] y) ?t1"
    using Cons.prems u list_ex_upsert[of _ cs x tbl] by auto
  from Cons.IH[OF this] show ?case
    by (simp add: u row_after_Cons[abs_def] comp_def)
qed

lemma fold_upsert_fixed:
  assumes "\<forall>x\<in>set xs. x ''id'' \<noteq> PNone"
  shows "\<forall>old\<in>set (fold (upsert cs) xs tbl). row_after cs xs old = old"
  using assms
proof (induction xs rule: rev_induct)
  case Nil
  show ?case by (simp add: row_after_Nil)
next
  case (snoc x xs)
  let ?t = "fold (upsert cs) xs tbl"
  have IH: "\<forall>old\<in>set ?t. row_after cs xs old = old"
    using snoc by simp
  have nn: "x ''id'' \<noteq> PNone" using snoc.prems by simp
  show ?case
  proof
    fix r assume "r \<in> set (fold (upsert cs) (xs @ [x]) tbl)"
    then have r: "r \<in> set (upsert cs x ?t)" by simp
    show "row_after cs (xs @ [x]) r = r"
    proof (cases "list_ex (conflicts [''id''] x) ?t")
      case True
      with r obtain old where old: "old \<in> set ?t"
        "r = (if conflicts [''id''] x old then excluded_update cs x old else old)"
        by (auto simp: upsert_def)
      show ?thesis
      proof (cases "conflicts [''id''] x old")
        case c: True
        then have c': "conflicts [''id''] x (row_after cs xs r)"
          using old by (simp add: conflicts_row_after conflicts_excluded)
        have "excluded_update cs x (row_after cs xs r) = r"
        proof
          fix col show "excluded_update cs x (row_after cs xs r) col = r col"
            using old c by (cases "col \<in> set cs") (simp_all add: excluded_update_def row_after_frame)
        qed
        with c' show ?thesis by (simp add: row_after_snoc)
      next
        case False
        with old IH show ?thesis
          by (simp add: row_after_snoc conflicts_row_after)
      qed
    next
      case False
      with r have "r \<in> set ?t \<or> r = x" by (auto simp: upsert_def)
      then show ?thesis
      proof
        assume a: "r \<in> set ?t"
        with False have "\<not> conflicts [''id''] x r" by (auto simp: list_ex_iff)
        with a IH show ?thesis by (simp add: row_after_snoc conflicts_row_after)
      next
        assume rx: "r = x"
        have c': "conflicts [''id''] x (row_after cs xs x)"
          using nn by (simp add: conflicts_id row_after_id)
        have "excluded_update cs x (row_after cs xs x) = x"
        proof
          fix col show "excluded_update cs x (row_after cs xs x) col = x col"
            by (cases "col \<in> set cs") (simp_all add: excluded_update_def row_after_frame)
        qed
        with c' rx show ?thesis by (simp add: row_after_snoc)
      qed
    qed
  qed
qed

lemma fold_upsert_idem:
  assumes "\<forall>x\<in>set xs. x ''id'' \<noteq> PNone"
  shows "fold (upsert cs) xs (fold (upsert cs) xs tbl) = fold (upsert cs) xs tbl"
proof -
  let ?t = "fold (upsert cs) xs tbl"
  have "\<forall>x\<in>set xs. list_ex (conflicts [''id''] x) ?t"
  proof
    fix x assume x: "x \<in> set xs"
    with assms have "conflicts [''id''] x x" by (simp add: conflicts_id)
    with x have "list_ex (conflicts [''id''] x) xs" by (auto simp: list_ex_iff)
    then show "list_ex (conflicts [''id''] x) ?t" by (simp only: list_ex_fold_upsert simp_thms)
  qed
  then have "fold (upsert cs) xs ?t = map (row_after cs xs) ?t"
    by (rule fold_upsert_present)
  also have "\<dots> = ?t"
    using fold_upsert_fixed[OF assms, of cs tbl] by (simp add: map_idI)
  finally show ?thesis .
qed

lemma fold_upsert_shape:
  "\<exists>new. fold (upsert cs) xs tbl = map (row_after cs xs) tbl @ new
         \<and> (\<forall>r\<in>set new. \<exists>x\<in>set xs. r ''id'' = x ''id'' \<and> \<not> list_ex (conflicts [''id''] x) tbl)"
proof (induction xs arbitrary: tbl)
  case Nil
  show ?case by (simp add: row_after_Nil[abs_def])
next
  case (Cons x xs)
  show ?case
  proof (cases "list_ex (conflicts [''id''] x) tbl")
    case True
    let ?t1 = "map (\<lambda>old. if conflicts [''id''] x old then excluded_update cs x old else old) tbl"
    from Cons.IH[of ?t1] obtain new where new:
      "fold (upsert cs) xs ?t1 = map (row_after cs xs) ?t1 @ new"
      "\<forall>r\<in>set new. \<exists>y\<in>set xs. r ''id'' = y ''id'' \<and> \<not> list_ex (conflicts [''id''] y) ?t1"
      by blast
    have same: "list_ex (conflicts [''id''] y) ?t1 = list_ex (conflicts [''id''] y) tbl" for y
      by (rule list_ex_overwritten)
    have "fold (upsert cs) (x # xs) tbl = map (row_after cs (x # xs)) tbl @ new"
      using True new(1) by (simp add: upsert_def row_after_Cons[abs_def] comp_def)
    moreover have "\<forall>r\<in>set new. \<exists>y\<in>set (x # xs). r ''id'' = y ''id'' \<and> \<not> list_ex (conflicts [''id''] y) tbl"
      using new(2) same by auto
    ultimately show ?thesis by blast
  next
    case False
    from Cons.IH[of "tbl @ [x]"] obtain new where new:
      "fold (upsert cs) xs (tbl @ [x]) = map (row_after cs xs) (tbl @ [x]) @ new"
      "\<forall>r\<in>set new. \<exists>y\<in>set xs. r ''id'' = y ''id'' \<and> \<not> list_ex (conflicts [''id''] y) (tbl @ [x])"
      by blast
    have "map (row_after cs (x # xs)) tbl = map (row_after cs xs) tbl"
      using False by (auto simp: row_after_Cons list_ex_iff)
    then have "fold (upsert cs) (x # xs) tbl =
        map (row_after cs (x # xs)) tbl @ (row_after cs xs x # new)"
      using False new(1) by (simp add: upsert_def)
    moreover have "\<forall>r\<in>set (row_after cs xs x # new).
        \<exists>y\<in>set (x # xs). r ''id'' = y ''id'' \<and> \<not> list_ex (conflicts [''id''] y) tbl"
      using new(2) False by (auto simp: row_after_id)
    ultimately show ?thesis by blast
  qed
qed


lemma row_after_untouched:
  assumes "\<forall>x\<in>set xs. \<not> conflicts [''id''] x old"
  shows "row_after cs xs old = old"
  using assms by (induction xs arbitrary: old) (simp_all add: row_after_Nil row_after_Cons)

subsection \<open>Insert or leave\<close>


lemma list_ex_fold_insert_new:
  "list_ex (conflicts target y) (fold (insert_new target) xs tbl) \<longleftrightarrow>
     list_ex (conflicts target y) tbl \<or> list_ex (conflicts target y) xs"
proof (induction xs arbitrary: tbl)
  case Nil
  show ?case by simp
next
  case (Cons x xs)
  have sym: "conflicts target a b \<Longrightarrow> conflicts target y b \<Longrightarrow> conflicts target y a" for a b
    by (auto simp: conflicts_def list_all_iff)
  have "conflicts target y x \<Longrightarrow> list_ex (conflicts target x) tbl \<Longrightarrow> list_ex (conflicts target y) tbl"
    by (auto simp: list_ex_iff conflicts_def list_all_iff)
  then show ?case
    using Cons.IH by (auto simp: insert_new_def)
qed

lemma fold_insert_new_present:
  assumes "\<forall>x\<in>set xs. list_ex (conflicts target x) tbl"
  shows "fold (insert_new target) xs tbl = tbl"
  using assms by (induction xs) (simp_all add: insert_new_def)

lemma conflicts_refl: "list_all (\<lambda>c. x c \<noteq> PNone) target \<Longrightarrow> conflicts target x x"
  by (simp add: conflicts_def list_all_iff)

lemma fold_insert_new_idem:
  assumes "\<forall>x\<in>set xs. list_all (\<lambda>c. x c \<noteq> PNone) target"
  shows "fold (insert_new target) xs (fold (insert_new target) xs tbl) = fold (insert_new target) xs tbl"
proof (rule fold_insert_new_present)
  show "\<forall>x\<in>set xs. list_ex (conflicts target x) (fold (insert_new target) xs tbl)"
  proof
    fix x assume x: "x \<in> set xs"
    with assms have "conflicts target x x" by (simp add: conflicts_refl)
    with x have "list_ex (conflicts target x) xs" by (auto simp: list_ex_iff)
    then show "list_ex (conflicts target x) (fold (insert_new target) xs tbl)"
      by (simp add: list_ex_fold_insert_new)
  qed
qed





section \<open>Loading a relation, loading it again\<close>

lemma set_chunks: "0 < n \<Longrightarrow> \<Union> (set ` set (chunks n xs)) = set xs"
  using concat_chunks[of n xs] by (metis set_concat)

lemma accepted_nonnull:
  assumes "accepted keys xs" and "x \<in> set xs"
  shows "x ''id'' \<noteq> PNone"
proof -
  from assms(2) obtain p where p: "p \<in> set (chunks 100 xs)" "x \<in> set p"
    using set_chunks[of 100 xs] by auto
  with assms(1) have "page_ok p" by (auto simp: accepted_def list_all_iff)
  with p(2) show ?thesis by (auto simp: page_ok_def list_all_iff)
qed

lemma load_join:
  "load (Some df) ''movie_genres'' engine =
     (if rows df = [] \<or> columns df = [] then engine
      else engine(qualified_name ''movie_genres'' :=
             fold (insert_new [''movie_id'', ''genre_id'']) (map dict_get (rows df))
               (engine (qualified_name ''movie_genres''))))"
proof (cases "rows df \<noteq> [] \<and> columns df = []")
  case True
  let ?t = "\<lparr>schema = Some ''etl_project'', name = ''movie_genres''\<rparr>"
  have "insert_columns (insert_stmt ?t []) = []" by (simp add: insert_stmt_def)
  then have "execute_values nn (insert_stmt ?t []) (map dict_get (rows df)) tbl = Inl Syntax_error" for nn tbl
    using True unfolding execute_values_def
    by (subst chunks.simps) (simp add: exec_statement_def)
  with True show ?thesis
    by (simp add: load_def insert_on_conflict_update_def Let_def)
next
  case False
  then show ?thesis
    using load_nothing[of df engine] by (auto simp: load_def)
qed

lemma load_update_twice:
  assumes "table_name \<noteq> ''movie_genres''"
  shows "load data table_name (load data table_name engine) = load data table_name engine"
proof (cases data)
  case None
  then show ?thesis by (simp add: load_def)
next
  case (Some df)
  show ?thesis
  proof (cases "rows df = []")
    case True
    with Some show ?thesis by (simp add: load_def)
  next
    case False
    let ?xs = "map dict_get (rows df)"
    let ?cs = "filter (\<lambda>key. key \<noteq> ''id'') (columns df)"
    show ?thesis
    proof (cases "accepted (columns df) ?xs")
      case True
      then have "\<forall>x\<in>set ?xs. x ''id'' \<noteq> PNone"
        using accepted_nonnull by blast
      then have "fold (upsert ?cs) ?xs (fold (upsert ?cs) ?xs tbl) = fold (upsert ?cs) ?xs tbl" for tbl
        by (rule fold_upsert_idem)
      with True Some show ?thesis
        by (simp add: load_update[OF assms False])
    next
      case a: False
      with Some show ?thesis
        by (simp add: load_update[OF assms False])
    qed
  qed
qed

lemma load_join_twice:
  assumes "join_keys_present df"
  shows "load (Some df) ''movie_genres'' (load (Some df) ''movie_genres'' engine)
           = load (Some df) ''movie_genres'' engine"
proof -
  let ?xs = "map dict_get (rows df)"
  have "\<forall>x\<in>set ?xs. list_all (\<lambda>c. x c \<noteq> PNone) [''movie_id'', ''genre_id'']"
    using assms by (auto simp: join_keys_present_def list_all_iff isna_def)
  then have "fold (insert_new [''movie_id'', ''genre_id'']) ?xs
                (fold (insert_new [''movie_id'', ''genre_id'']) ?xs tbl)
             = fold (insert_new [''movie_id'', ''genre_id'']) ?xs tbl" for tbl
    by (rule fold_insert_new_idem)
  then show ?thesis
    by (simp add: load_join)
qed

lemma join_rows_keys:
  assumes "kept r" and "x \<in> set (join_rows r)"
  shows "\<not> isna (dict_get x ''movie_id'') \<and> \<not> isna (dict_get x ''genre_id'')"
  using assms by (auto simp: join_rows_def kept_def dict_get_Cons)

lemma transform_movies_join_keys:
  assumes "transform_movies parse results = Some (movies, movie_genres)"
  shows "join_keys_present movie_genres"
proof -
  from assms have "rows movie_genres = concat (map join_rows (filter kept results))"
    by (auto simp: transform_movies_char split: if_splits)
  then show ?thesis
    using join_rows_keys by (auto simp: join_keys_present_def list_all_iff)
qed

lemma load_other_table:
  assumes "qualified_name table_name \<noteq> other"
  shows "load data table_name engine other = engine other"
proof (cases data)
  case None
  then show ?thesis by (simp add: load_def)
next
  case (Some df)
  show ?thesis
  proof (cases "table_name = ''movie_genres''")
    case True
    with Some assms show ?thesis by (simp add: load_join)
  next
    case False
    show ?thesis
    proof (cases "rows df = []")
      case True
      with Some show ?thesis by (simp add: load_def)
    next
      case ne: False
      show ?thesis
        using Some assms by (simp add: load_update[OF False ne])
    qed
  qed
qed

lemma load_depends_on_table:
  assumes "engine (qualified_name table_name) = engine' (qualified_name table_name)"
  shows "load data table_name engine (qualified_name table_name)
           = load data table_name engine' (qualified_name table_name)"
proof (cases data)
  case None
  with assms show ?thesis by (simp add: load_def)
next
  case (Some df)
  show ?thesis
  proof (cases "table_name = ''movie_genres''")
    case True
    with Some assms show ?thesis by (simp add: load_join)
  next
    case False
    show ?thesis
    proof (cases "rows df = []")
      case True
      with Some assms show ?thesis by (simp add: load_def)
    next
      case ne: False
      show ?thesis
        using Some assms by (simp add: load_update[OF False ne])
    qed
  qed
qed

lemma load_page_twice:
  assumes "join_keys_present movie_genres"
  shows "load_page movies movie_genres (load_page movies movie_genres engine)
           = load_page movies movie_genres engine"
proof
  fix tn
  let ?m = "qualified_name ''movies''" and ?g = "qualified_name ''movie_genres''"
  let ?e1 = "load (Some movies) ''movies'' engine"
  let ?e2 = "load (Some movie_genres) ''movie_genres'' ?e1"
  let ?e3 = "load (Some movies) ''movies'' ?e2"
  let ?e4 = "load (Some movie_genres) ''movie_genres'' ?e3"
  have ne: "?m \<noteq> ?g" by (simp add: qualified_name_def)
  have m2: "?e2 ?m = ?e1 ?m" using ne by (simp add: load_other_table)
  have m3: "?e3 ?m = ?e1 ?m"
    using load_depends_on_table[of ?e2 "''movies''" ?e1 "Some movies"] m2
      load_update_twice[of "''movies''" "Some movies" engine] by simp
  have g3: "?e3 ?g = ?e2 ?g" using ne by (simp add: load_other_table)
  have g4: "?e4 ?g = ?e2 ?g"
    using load_depends_on_table[of ?e3 "''movie_genres''" ?e2 "Some movie_genres"] g3
      load_join_twice[OF assms, of ?e1] by simp
  have m4: "?e4 ?m = ?e1 ?m" using ne m3 by (simp add: load_other_table)
  show "load_page movies movie_genres (load_page movies movie_genres engine) tn
          = load_page movies movie_genres engine tn"
  proof (cases "tn = ?m \<or> tn = ?g")
    case True
    then show ?thesis using m4 m2 g4 by (auto simp: load_page_def)
  next
    case False
    then have "?m \<noteq> tn" "?g \<noteq> tn" by auto
    then show ?thesis by (simp add: load_page_def load_other_table)
  qed
qed

section \<open>What a page leaves in the store\<close>

lemma load_page_movies:
  "load_page movies movie_genres engine (qualified_name ''movies'')
     = load (Some movies) ''movies'' engine (qualified_name ''movies'')"
proof -
  have "qualified_name ''movie_genres'' \<noteq> qualified_name ''movies''"
    by (simp add: qualified_name_def)
  then show ?thesis
    by (simp add: load_page_def load_other_table)
qed


lemma fold_upsert_provenance:
  assumes "r \<in> set (fold (upsert cs) xs tbl)"
  shows "r \<in> set tbl \<or> (\<exists>x\<in>set xs. r ''id'' = x ''id'')"
proof -
  from fold_upsert_shape[of cs xs tbl] obtain new where
    shape: "fold (upsert cs) xs tbl = map (row_after cs xs) tbl @ new"
    and new: "\<forall>r\<in>set new. \<exists>x\<in>set xs. r ''id'' = x ''id'' \<and> \<not> list_ex (conflicts [''id''] x) tbl"
    by blast
  from assms shape have "r \<in> row_after cs xs ` set tbl \<or> r \<in> set new" by auto
  then show ?thesis
  proof
    assume "r \<in> row_after cs xs ` set tbl"
    then obtain old where old: "old \<in> set tbl" "r = row_after cs xs old" by blast
    show ?thesis
    proof (cases "\<forall>x\<in>set xs. \<not> conflicts [''id''] x old")
      case True
      then have "row_after cs xs old = old" by (rule row_after_untouched)
      with old show ?thesis by simp
    next
      case False
      then obtain x where "x \<in> set xs" "old ''id'' = x ''id''"
        by (auto simp: conflicts_id)
      with old show ?thesis by (auto simp: row_after_id)
    qed
  next
    assume "r \<in> set new"
    with new show ?thesis by blast
  qed
qed

lemma load_update_provenance:
  assumes "table_name \<noteq> ''movie_genres''"
    and "r \<in> set (load (Some df) table_name engine (qualified_name table_name))"
  shows "r \<in> set (engine (qualified_name table_name))
         \<or> (\<exists>x\<in>set (rows df). r ''id'' = dict_get x ''id'')"
proof (cases "rows df = []")
  case True
  with assms(2) show ?thesis by (simp add: load_def)
next
  case False
  show ?thesis
  proof (cases "accepted (columns df) (map dict_get (rows df))")
    case True
    with assms(2) have "r \<in> set (fold (upsert (filter (\<lambda>key. key \<noteq> ''id'') (columns df)))
                            (map dict_get (rows df)) (engine (qualified_name table_name)))"
      by (simp add: load_update[OF assms(1) False])
    from fold_upsert_provenance[OF this] show ?thesis by auto
  next
    case a: False
    with assms(2) show ?thesis by (simp add: load_update[OF assms(1) False])
  qed
qed






section \<open>Extractor: results by status\<close>

text \<open>
  C5. The extractor's test \<^verbatim>\<open>str(status_code).startswith('20')\<close> holds exactly when the
  first two digits of the status code are 20. On such a status, with a body that
  decodes to a dictionary holding the named field, \<^verbatim>\<open>extract_genre\<close> returns the field
  and \<^verbatim>\<open>extract_movies\<close> returns it with \<^verbatim>\<open>total_pages\<close>, which is 1 when the body
  has no such key. On any other status, whatever the body, \<^verbatim>\<open>extract_genre\<close> returns
  the empty list and \<^verbatim>\<open>extract_movies\<close> returns the empty list with 0.
\<close>

theorem extractor_status_rule:
  "(startswith (str_nat status) ''20'' \<longleftrightarrow> leading_digits_20 status)
   \<and> (leading_digits_20 status \<and> map_of body data = Some v \<longrightarrow>
        extract_genre (Response status (Some (PDict body))) data = v
        \<and> extract_movies (Response status (Some (PDict body))) data =
            Some (v, case map_of body ''total_pages'' of None \<Rightarrow> PInt 1 | Some t \<Rightarrow> t))
   \<and> (\<not> leading_digits_20 status \<longrightarrow>
        extract_genre (Response status any_body) data = PList []
        \<and> extract_movies (Response status any_body) data = Some (PList [], PInt 0))"
  by (simp add: startswith_20 leading_digits_20_def extract_genre_def extract_movies_def
      dict_get_def dict_get_default_def)

theorem extractor_status_rule_witness:
  "extract_movies (Response 200 (Some (PDict [(''results'', PList [PInt 5])]))) ''results''
     = Some (PList [PInt 5], PInt 1)
   \<and> extract_genre (Response 200 (Some (PDict [(''genres'', PList [PInt 5])]))) ''genres''
     = PList [PInt 5]
   \<and> extract_movies (Response 404 None) ''results'' = Some (PList [], PInt 0)
   \<and> extract_genre (Response 404 None) ''genres'' = PList []"
proof -
  have "(200::nat) div 10 ^ 1 = 20" by simp
  then have ok: "leading_digits_20 200"
    unfolding leading_digits_20_def by (rule exI)
  have "\<not> startswith (str_nat 404) ''20''" by code_simp
  then have no: "\<not> leading_digits_20 404"
    using extractor_status_rule [of 404] by simp
  show ?thesis
    using ok no
      extractor_status_rule [where status=200 and body="[(''results'', PList [PInt 5])]" and data="''results''" and v="PList [PInt 5]"]
      extractor_status_rule [where status=200 and body="[(''genres'', PList [PInt 5])]" and data="''genres''" and v="PList [PInt 5]"]
      extractor_status_rule [where status=404 and any_body=None and data="''results''"]
      extractor_status_rule [where status=404 and any_body=None and data="''genres''"]
    by simp
qed

section \<open>Extractor: a body without the named field\<close>

text \<open>
  C10. For a response whose status starts with 20 and whose decoded body has no binding
  for the named field, \<^verbatim>\<open>extract_genre\<close> returns \<^verbatim>\<open>None\<close> and \<^verbatim>\<open>extract_movies\<close> returns
  \<^verbatim>\<open>None\<close> paired with the page bound, not an empty list. For the orchestrator the
  page is the same as an empty one: the pass through the loop body ends as it does for
  the same body with \<^verbatim>\<open>results\<close> bound to the empty list, fetching the same page next.
\<close>

theorem missing_field_is_none:
  assumes "leading_digits_20 status" and "map_of body data = None"
  shows "extract_genre (Response status (Some (PDict body))) data = PNone
         \<and> extract_movies (Response status (Some (PDict body))) data =
             Some (PNone, dict_get_default body ''total_pages'' (PInt 1))
         \<and> \<not> truthy PNone
         \<and> (data = ''results'' \<longrightarrow>
              page_step parse (Response status (Some (PDict body))) st p =
                page_step parse (Response status (Some (PDict ((''results'', PList []) # body)))) st p
              \<and> page_step parse (Response status (Some (PDict body))) st p =
                  Next_page (st\<lparr>fetched := fetched st @ [p]\<rparr>) p)"
  using assms
  by (auto simp: startswith_20 leading_digits_20_def extract_genre_def extract_movies_def
      dict_get_def dict_get_default_def page_step_def Let_def)

theorem missing_field_is_none_witness:
  "extract_genre (Response 200 (Some (PDict [(''total_pages'', PInt 4)]))) ''results'' = PNone
   \<and> extract_movies (Response 200 (Some (PDict [(''total_pages'', PInt 4)]))) ''results'' =
       Some (PNone, PInt 4)
   \<and> page_step (\<lambda>v. NaT) (Response 200 (Some (PDict [(''total_pages'', PInt 4)])))
         \<lparr>db = (\<lambda>t. []), fetched = [1]\<rparr> 2 =
       page_step (\<lambda>v. NaT)
         (Response 200 (Some (PDict [(''results'', PList []), (''total_pages'', PInt 4)])))
         \<lparr>db = (\<lambda>t. []), fetched = [1]\<rparr> 2"
proof -
  have "(200::nat) div 10 ^ 1 = 20" by simp
  then have ok: "leading_digits_20 200"
    unfolding leading_digits_20_def by (rule exI)
  have absent: "map_of [(''total_pages'', PInt 4)] ''results'' = None" by simp
  show ?thesis
    using missing_field_is_none
      [OF ok absent, of "\<lambda>v. NaT" "\<lparr>db = (\<lambda>t. []), fetched = [1]\<rparr>" 2]
    by (simp add: dict_get_default_def)
qed

section \<open>Normalizer: the taxonomy\<close>

text \<open>
  C9. The taxonomy normalizer is to return the input records without those whose
  identifier is null. On the two records below it returns both: the record with the
  null identifier is still in the frame.
\<close>

theorem transform_genre_keeps_null_id:
  "transform_genre [[(''id'', PNone), (''name'', PStr ''Unknown'')],
                    [(''id'', PInt 28), (''name'', PStr ''Action'')]]
   = Some \<lparr>columns = [''id'', ''name''],
           rows = [[(''id'', PNone), (''name'', PStr ''Unknown'')],
                   [(''id'', PInt 28), (''name'', PStr ''Action'')]]\<rparr>"
  by code_simp

section \<open>Orchestrator: a page that fails\<close>

text \<open>
  C4. An error in the extraction or the transformation of a page is to be logged and
  the run is to go on with the next page. Below, page 1 of 2 holds one record without
  an \<^verbatim>\<open>id\<close>: \<^verbatim>\<open>transform_movies\<close> logs the KeyError and returns \<^verbatim>\<open>None\<close>, the
  unpacking in \<^verbatim>\<open>main\<close> raises, and the run ends after the fetch of page 1 with
  nothing stored. The same happens when the request for page 1 raises.
\<close>

theorem failed_page_ends_run:
  "page_loop parse
     (\<lambda>n p. if p = 1
             then Response 200 (Some (PDict [(''results'', PList [PDict [(''title'', PStr ''A'')]]),
                                             (''total_pages'', PInt 2)]))
             else Response 200 (Some (PDict [(''results'', PList []), (''total_pages'', PInt 2)])))
     \<lparr>db = engine, fetched = []\<rparr> 1
   = Some (Uncaught_TypeError \<lparr>db = engine, fetched = [1]\<rparr>)
   \<and> page_loop parse (\<lambda>n p. if p = 1 then Transport_failure else Response 200 None)
       \<lparr>db = engine, fetched = []\<rparr> 1
     = Some (Uncaught_TypeError \<lparr>db = engine, fetched = [1]\<rparr>)"
proof -
  have "startswith (str_nat 200) ''20''" by code_simp
  moreover have "transform_movies parse [[(''title'', PStr ''A'')]] = None"
    by (simp add: transform_movies_def DataFrame_def dropna_def)
  ultimately show ?thesis
    by (simp add: page_loop.simps page_step_def extract_movies_def dict_get_def
        dict_get_default_def)
qed

section \<open>Orchestrator: termination of the pagination loop\<close>

text \<open>
  C2, as the code has it. When every response yields records that the normalizer
  accepts and gives 3 as the page bound, the loop fetches the pages 1, 2, 3 and
  completes. When the response for page 1 yields such records and its body has no
  \<^verbatim>\<open>total_pages\<close>, the loop completes after the fetch of page 1.
\<close>

theorem pagination_terminates_on_records:
  "((\<forall>n q. yields_records parse (api n q) (PInt 3)) \<longrightarrow>
      (\<exists>st'. page_loop parse api st 1 = Some (Completed st')
             \<and> fetched st' = fetched st @ [1, 2, 3]))
   \<and> (api (length (fetched st)) 1 = Response status (Some (PDict body))
       \<and> map_of body ''total_pages'' = None
       \<and> yields_records parse (Response status (Some (PDict body))) bound \<longrightarrow>
      (\<exists>st'. page_loop parse api st 1 = Some (Completed st')
             \<and> fetched st' = fetched st @ [1]))"
proof (intro conjI impI)
  assume "\<forall>n q. yields_records parse (api n q) (PInt 3)"
  then have "\<exists>st'. page_loop parse api st 1 = Some (Completed st')
                  \<and> fetched st' = fetched st @ [1..max 1 3]"
    by (intro page_loop_bounded) simp
  moreover have "[1..max 1 3] = [1, 2, 3::int]"
    by (simp add: upto_rec1)
  ultimately show "\<exists>st'. page_loop parse api st 1 = Some (Completed st')
                        \<and> fetched st' = fetched st @ [1, 2, 3]"
    by simp
next
  assume a: "api (length (fetched st)) 1 = Response status (Some (PDict body))
             \<and> map_of body ''total_pages'' = None
             \<and> yields_records parse (Response status (Some (PDict body))) bound"
  then have "bound = PInt 1"
    by (auto simp: yields_records_def extract_movies_def dict_get_default_def
        split: if_splits)
  with a have y: "yields_records parse (api (length (fetched st)) 1) (PInt 1)" by simp
  obtain st' where st': "fetched st' = fetched st @ [1]"
    "page_step parse (api (length (fetched st)) 1) st 1 =
       (case py_ge 1 (PInt 1) of None \<Rightarrow> Stop (Uncaught_TypeError st')
        | Some True \<Rightarrow> Stop (Completed st') | Some False \<Rightarrow> Next_page st' (1 + 1))"
    using page_step_yields [OF y] by blast
  then show "\<exists>st'. page_loop parse api st 1 = Some (Completed st')
                  \<and> fetched st' = fetched st @ [1]"
    by (subst page_loop.simps) simp
qed

text \<open>
  The claim fails on the code in two ways. Against an API that answers every request
  with status 500 the loop never ends, and it never ends either when page 1 of 2 was
  loaded and every request for page 2 is answered with status 500: the bound from page
  1 is not consulted. And a page that yields a record the normalizer rejects ends the
  run at page 1 of 3 with an exception nothing catches.
\<close>

theorem pagination_loop_counterexample:
  "page_loop (\<lambda>v. Unparseable) (\<lambda>n p. Response 500 None) \<lparr>db = (\<lambda>t. []), fetched = []\<rparr> 1 = None
   \<and> page_loop (\<lambda>v. Stamp 0)
       (\<lambda>n p. if p = 1
               then Response 200 (Some (PDict
                      [(''results'', PList [PDict [(''id'', PInt 7), (''genre_ids'', PList [PInt 1]),
                          (''release_date'', PStr ''2020-01-01''), (''backdrop_path'', PNone),
                          (''poster_path'', PNone), (''video'', PBool False),
                          (''adult'', PBool False)]]),
                       (''total_pages'', PInt 2)]))
               else Response 500 None)
       \<lparr>db = (\<lambda>t. []), fetched = []\<rparr> 1 = None
   \<and> page_loop (\<lambda>v. Unparseable)
       (\<lambda>n p. Response 200 (Some (PDict [(''results'', PList [PDict [(''title'', PStr ''A'')]]),
                                          (''total_pages'', PInt 3)])))
       \<lparr>db = (\<lambda>t. []), fetched = []\<rparr> 1
     = Some (Uncaught_TypeError \<lparr>db = (\<lambda>t. []), fetched = [1]\<rparr>)"
proof (intro conjI)
  have no: "\<not> startswith (str_nat 500) ''20''" by code_simp
  have ok: "startswith (str_nat 200) ''20''" by code_simp
  show "page_loop (\<lambda>v. Unparseable) (\<lambda>n p. Response 500 None)
          \<lparr>db = (\<lambda>t. []), fetched = []\<rparr> 1 = None"
    by (rule page_loop_diverges) (simp add: extract_movies_def no)
  let ?rec = "[(''id'', PInt 7), (''genre_ids'', PList [PInt 1]),
               (''release_date'', PStr ''2020-01-01''), (''backdrop_path'', PNone),
               (''poster_path'', PNone), (''video'', PBool False), (''adult'', PBool False)]"
  let ?api = "\<lambda>(n::nat) (p::int). if p = 1
               then Response 200 (Some (PDict [(''results'', PList [PDict ?rec]),
                                               (''total_pages'', PInt 2)]))
               else Response 500 None"
  have "transform_movies (\<lambda>v. Stamp 0) [?rec] \<noteq> None" by code_simp
  then obtain movies movie_genres where
    "transform_movies (\<lambda>v. Stamp 0) [?rec] = Some (movies, movie_genres)" by auto
  then have step1: "page_step (\<lambda>v. Stamp 0) (?api 0 1) \<lparr>db = (\<lambda>t. []), fetched = []\<rparr> 1 =
      Next_page \<lparr>db = load (Some movie_genres) ''movie_genres''
                        (load (Some movies) ''movies'' (\<lambda>t. [])), fetched = [1]\<rparr> 2"
    by (simp add: page_step_def extract_movies_def ok dict_get_def dict_get_default_def)
  have "page_loop (\<lambda>v. Stamp 0) ?api
          \<lparr>db = load (Some movie_genres) ''movie_genres''
                  (load (Some movies) ''movies'' (\<lambda>t. [])), fetched = [1]\<rparr> 2 = None"
    by (rule page_loop_diverges) (simp add: extract_movies_def no)
  with step1 show "page_loop (\<lambda>v. Stamp 0) ?api \<lparr>db = (\<lambda>t. []), fetched = []\<rparr> 1 = None"
    by (subst page_loop.simps) simp
  have "transform_movies (\<lambda>v. Unparseable) [[(''title'', PStr ''A'')]] = None"
    by (simp add: transform_movies_def DataFrame_def dropna_def)
  then show "page_loop (\<lambda>v. Unparseable)
       (\<lambda>n p. Response 200 (Some (PDict [(''results'', PList [PDict [(''title'', PStr ''A'')]]),
                                          (''total_pages'', PInt 3)])))
       \<lparr>db = (\<lambda>t. []), fetched = []\<rparr> 1
     = Some (Uncaught_TypeError \<lparr>db = (\<lambda>t. []), fetched = [1]\<rparr>)"
    by (simp add: page_loop.simps page_step_def extract_movies_def ok dict_get_def
        dict_get_default_def)
qed

theorem pagination_terminates_on_records_witness:
  "(\<exists>st'. page_loop (\<lambda>v. Stamp 0)
       (\<lambda>n p. Response 200 (Some (PDict
          [(''results'', PList [PDict [(''id'', PInt 7), (''genre_ids'', PList [PInt 1]),
              (''release_date'', PStr ''2020-01-01''), (''backdrop_path'', PNone),
              (''poster_path'', PNone), (''video'', PBool False), (''adult'', PBool False)]]),
           (''total_pages'', PInt 3)])))
       \<lparr>db = (\<lambda>t. []), fetched = []\<rparr> 1 = Some (Completed st')
     \<and> fetched st' = [1, 2, 3])
   \<and> (\<exists>st'. page_loop (\<lambda>v. Stamp 0)
       (\<lambda>n p. Response 200 (Some (PDict
          [(''results'', PList [PDict [(''id'', PInt 7), (''genre_ids'', PList [PInt 1]),
              (''release_date'', PStr ''2020-01-01''), (''backdrop_path'', PNone),
              (''poster_path'', PNone), (''video'', PBool False), (''adult'', PBool False)]])])))
       \<lparr>db = (\<lambda>t. []), fetched = []\<rparr> 1 = Some (Completed st')
     \<and> fetched st' = [1])"
proof -
  let ?rec = "[(''id'', PInt 7), (''genre_ids'', PList [PInt 1]),
               (''release_date'', PStr ''2020-01-01''), (''backdrop_path'', PNone),
               (''poster_path'', PNone), (''video'', PBool False), (''adult'', PBool False)]"
  let ?resp = "Response 200 (Some (PDict [(''results'', PList [PDict ?rec]),
                                          (''total_pages'', PInt 3)]))"
  let ?body = "[(''results'', PList [PDict ?rec])]"
  have ok: "startswith (str_nat 200) ''20''" by code_simp
  have tr: "transform_movies (\<lambda>v. Stamp 0) [?rec] \<noteq> None" by code_simp
  then have "yields_records (\<lambda>v. Stamp 0) ?resp (PInt 3)"
    by (simp add: yields_records_def extract_movies_def ok dict_get_def dict_get_default_def)
  then have all: "\<forall>n q. yields_records (\<lambda>v. Stamp 0) ((\<lambda>(n::nat) (p::int). ?resp) n q) (PInt 3)"
    by simp
  have one: "yields_records (\<lambda>v. Stamp 0) (Response 200 (Some (PDict ?body))) (PInt 1)"
    using tr
    by (simp add: yields_records_def extract_movies_def ok dict_get_def dict_get_default_def)
  have absent: "map_of ?body ''total_pages'' = None" by simp
  show ?thesis
    using all one absent
      pagination_terminates_on_records
        [where parse = "\<lambda>v. Stamp 0" and api = "\<lambda>n p. ?resp"
           and st = "\<lparr>db = (\<lambda>t. []), fetched = []\<rparr>"]
      pagination_terminates_on_records
        [where parse = "\<lambda>v. Stamp 0" and api = "\<lambda>n p. Response 200 (Some (PDict ?body))"
           and st = "\<lparr>db = (\<lambda>t. []), fetched = []\<rparr>" and status = 200 and body = ?body
           and bound = "PInt 1"]
    by simp
qed

section \<open>Loader: idempotence\<close>

text \<open>
  C1. Loading the same relation twice leaves the store as loading it once does. For a
  table with the update rule (every table but \<^verbatim>\<open>movie_genres\<close>) this holds for every
  relation and every store, a relation the store rejects included. For \<^verbatim>\<open>movie_genres\<close>
  it holds for every relation whose rows have both keys, which is every join relation
  the normalizer returns; so the two loads of a page, done twice, leave the store as
  done once.
\<close>

theorem load_twice_is_load_once:
  "(table_name \<noteq> ''movie_genres'' \<longrightarrow>
      load data table_name (load data table_name engine) = load data table_name engine)
   \<and> (join_keys_present df \<longrightarrow>
      load (Some df) ''movie_genres'' (load (Some df) ''movie_genres'' engine)
        = load (Some df) ''movie_genres'' engine)
   \<and> (transform_movies parse results = Some (movies, movie_genres) \<longrightarrow>
      load_page movies movie_genres (load_page movies movie_genres engine)
        = load_page movies movie_genres engine)"
proof (intro conjI impI)
  assume "table_name \<noteq> ''movie_genres''"
  then show "load data table_name (load data table_name engine) = load data table_name engine"
    by (rule load_update_twice)
next
  assume "join_keys_present df"
  then show "load (Some df) ''movie_genres'' (load (Some df) ''movie_genres'' engine)
        = load (Some df) ''movie_genres'' engine"
    by (rule load_join_twice)
next
  assume "transform_movies parse results = Some (movies, movie_genres)"
  then have "join_keys_present movie_genres"
    by (rule transform_movies_join_keys)
  then show "load_page movies movie_genres (load_page movies movie_genres engine)
        = load_page movies movie_genres engine"
    by (rule load_page_twice)
qed

theorem load_twice_is_load_once_witness:
  "load (Some \<lparr>columns = [''id'', ''name''],
               rows = [[(''id'', PInt 5), (''name'', PStr ''Drama'')]]\<rparr>) ''genres''
     (load (Some \<lparr>columns = [''id'', ''name''],
                  rows = [[(''id'', PInt 5), (''name'', PStr ''Drama'')]]\<rparr>) ''genres'' (\<lambda>t. []))
   = load (Some \<lparr>columns = [''id'', ''name''],
                rows = [[(''id'', PInt 5), (''name'', PStr ''Drama'')]]\<rparr>) ''genres'' (\<lambda>t. [])
   \<and> load (Some \<lparr>columns = [''movie_id'', ''genre_id''],
                 rows = [[(''movie_id'', PInt 7), (''genre_id'', PInt 1)]]\<rparr>) ''movie_genres''
       (load (Some \<lparr>columns = [''movie_id'', ''genre_id''],
                    rows = [[(''movie_id'', PInt 7), (''genre_id'', PInt 1)]]\<rparr>) ''movie_genres''
          (\<lambda>t. []))
     = load (Some \<lparr>columns = [''movie_id'', ''genre_id''],
                  rows = [[(''movie_id'', PInt 7), (''genre_id'', PInt 1)]]\<rparr>) ''movie_genres''
         (\<lambda>t. [])
   \<and> (\<exists>movies movie_genres.
        transform_movies (\<lambda>v. Stamp 0)
          [[(''id'', PInt 7), (''genre_ids'', PList [PInt 1]),
            (''release_date'', PStr ''2020-01-01''), (''backdrop_path'', PNone),
            (''poster_path'', PNone), (''video'', PBool False), (''adult'', PBool False)]]
          = Some (movies, movie_genres)
        \<and> load_page movies movie_genres (load_page movies movie_genres (\<lambda>t. []))
            = load_page movies movie_genres (\<lambda>t. []))"
proof -
  let ?rec = "[(''id'', PInt 7), (''genre_ids'', PList [PInt 1]),
               (''release_date'', PStr ''2020-01-01''), (''backdrop_path'', PNone),
               (''poster_path'', PNone), (''video'', PBool False), (''adult'', PBool False)]"
  let ?join = "\<lparr>columns = [''movie_id'', ''genre_id''],
                rows = [[(''movie_id'', PInt 7), (''genre_id'', PInt 1)]]\<rparr>"
  have names: "''genres'' \<noteq> ''movie_genres''" by simp
  have keys: "join_keys_present ?join"
    by (simp add: join_keys_present_def isna_def dict_get_Cons)
  have "transform_movies (\<lambda>v. Stamp 0) [?rec] \<noteq> None" by code_simp
  then obtain movies movie_genres where
    tm: "transform_movies (\<lambda>v. Stamp 0) [?rec] = Some (movies, movie_genres)" by auto
  show ?thesis
    using names keys tm
      load_twice_is_load_once
        [where table_name = "''genres''" and engine = "\<lambda>t. []" and df = ?join
           and parse = "\<lambda>v. Stamp 0" and results = "[?rec]"
           and movies = movies and movie_genres = movie_genres]
    by blast
qed

section \<open>Normalizer: release dates\<close>

text \<open>
  C8, as the code has it. When the batch is one the normalizer can transform, the
  transformation succeeds, every kept record (one with an identifier and a
  genre-reference list) is in the movie relation with its release date parsed, and a
  kept record whose release date is absent or null is there with a null date. When a
  kept record has a release date that is present and that the parser rejects, the
  transformation of the whole batch fails: \<^verbatim>\<open>transform_movies\<close> returns \<^verbatim>\<open>None\<close>. It
  fails as well when no record of the batch has a \<^verbatim>\<open>release_date\<close> key.
\<close>

theorem release_date_policy:
  "(transformable parse results \<longrightarrow>
      (\<exists>movies movie_genres.
         transform_movies parse results = Some (movies, movie_genres)
         \<and> list_all2 (\<lambda>row r. dict_get row ''id'' = dict_get r ''id''
                           \<and> to_datetime_value parse (dict_get r ''release_date'')
                               = Some (dict_get row ''release_date'')
                           \<and> (isna (dict_get r ''release_date'') \<longrightarrow>
                                dict_get row ''release_date'' = PNone))
             (rows movies) (filter kept results)))
   \<and> ((\<exists>r\<in>set results. kept r \<and> \<not> isna (dict_get r ''release_date'')
          \<and> parse (dict_get r ''release_date'') = Unparseable) \<longrightarrow>
      transform_movies parse results = None)
   \<and> (\<not> list_ex (\<lambda>r. ''release_date'' \<in> fst ` set r) results \<longrightarrow>
      transform_movies parse results = None)"
proof (intro conjI impI)
  assume t: "transformable parse results"
  let ?cols = "columns (DataFrame results)"
  from t have "transform_movies parse results \<noteq> None"
    using transform_movies_Some_iff by blast
  then obtain movies movie_genres where
    tm: "transform_movies parse results = Some (movies, movie_genres)" by auto
  then have rd: "''release_date'' \<in> set ?cols" and id: "''id'' \<in> set ?cols"
    and ok: "\<forall>r\<in>set (filter kept results).
               to_datetime_value parse (dict_get r ''release_date'') \<noteq> None"
    and mv: "rows movies = map (movie_row parse ?cols) (filter kept results)"
    by (auto simp: transform_movies_char split: if_splits)
  have nd: "''release_date'' \<notin> set dropped_columns" "''id'' \<notin> set dropped_columns"
    by (simp_all add: dropped_columns_def)
  have "list_all2 (\<lambda>row r. dict_get row ''id'' = dict_get r ''id''
                           \<and> to_datetime_value parse (dict_get r ''release_date'')
                               = Some (dict_get row ''release_date'')
                           \<and> (isna (dict_get r ''release_date'') \<longrightarrow>
                                dict_get row ''release_date'' = PNone))
        (map (movie_row parse ?cols) (filter kept results)) (filter kept results)"
    unfolding list_all2_map1
  proof (rule list_all2_same[THEN iffD2], intro ballI)
    fix r assume "r \<in> set (filter kept results)"
    with ok obtain d where d: "to_datetime_value parse (dict_get r ''release_date'') = Some d"
      by auto
    then show "dict_get (movie_row parse ?cols r) ''id'' = dict_get r ''id''
               \<and> to_datetime_value parse (dict_get r ''release_date'')
                 = Some (dict_get (movie_row parse ?cols r) ''release_date'')
               \<and> (isna (dict_get r ''release_date'') \<longrightarrow>
                    dict_get (movie_row parse ?cols r) ''release_date'' = PNone)"
      by (auto simp: dict_get_movie_row[OF rd nd(1)] dict_get_movie_row[OF id nd(2)]
          to_datetime_value_def)
  qed
  with mv tm show "\<exists>movies movie_genres.
         transform_movies parse results = Some (movies, movie_genres)
         \<and> list_all2 (\<lambda>row r. dict_get row ''id'' = dict_get r ''id''
                           \<and> to_datetime_value parse (dict_get r ''release_date'')
                               = Some (dict_get row ''release_date'')
                           \<and> (isna (dict_get r ''release_date'') \<longrightarrow>
                                dict_get row ''release_date'' = PNone))
             (rows movies) (filter kept results)"
    by simp
next
  assume "\<exists>r\<in>set results. kept r \<and> \<not> isna (dict_get r ''release_date'')
          \<and> parse (dict_get r ''release_date'') = Unparseable"
  then have "\<not> transformable parse results"
    by (auto simp: transformable_def list_all_iff)
  then show "transform_movies parse results = None"
    using transform_movies_Some_iff by blast
next
  assume "\<not> list_ex (\<lambda>r. ''release_date'' \<in> fst ` set r) results"
  then have "\<not> transformable parse results"
    by (simp add: transformable_def)
  then show "transform_movies parse results = None"
    using transform_movies_Some_iff by blast
qed

text \<open>
  The claim fails on the code: of the two records below the second has a release date
  that is no date, and the batch of both is not transformed at all, while the first
  record alone is.
\<close>

theorem release_date_counterexample:
  "transform_movies (\<lambda>v. if v = PStr ''2020-01-01'' then Stamp 1577836800000000000 else Unparseable)
     [[(''id'', PInt 7), (''genre_ids'', PList [PInt 1]), (''release_date'', PStr ''2020-01-01''),
       (''backdrop_path'', PNone), (''poster_path'', PNone), (''video'', PBool False),
       (''adult'', PBool False)],
      [(''id'', PInt 8), (''genre_ids'', PList [PInt 1]), (''release_date'', PStr ''soon''),
       (''backdrop_path'', PNone), (''poster_path'', PNone), (''video'', PBool False),
       (''adult'', PBool False)]] = None
   \<and> transform_movies (\<lambda>v. if v = PStr ''2020-01-01'' then Stamp 1577836800000000000 else Unparseable)
     [[(''id'', PInt 7), (''genre_ids'', PList [PInt 1]), (''release_date'', PStr ''2020-01-01''),
       (''backdrop_path'', PNone), (''poster_path'', PNone), (''video'', PBool False),
       (''adult'', PBool False)]]
     = Some (\<lparr>columns = [''id'', ''release_date''],
              rows = [[(''id'', PInt 7), (''release_date'', PTimestamp 1577836800000000000)]]\<rparr>,
             \<lparr>columns = [''movie_id'', ''genre_id''],
              rows = [[(''movie_id'', PInt 7), (''genre_id'', PInt 1)]]\<rparr>)"
  by code_simp

theorem release_date_policy_witness:
  "(\<exists>movies movie_genres.
      transform_movies (\<lambda>v. if v = PStr ''2020-01-01'' then Stamp 1577836800000000000 else Unparseable)
        [[(''id'', PInt 7), (''genre_ids'', PList [PInt 1]), (''release_date'', PNone),
          (''backdrop_path'', PNone), (''poster_path'', PNone), (''video'', PBool False),
          (''adult'', PBool False)],
         [(''id'', PInt 8), (''genre_ids'', PList [PInt 1])],
         [(''id'', PInt 9), (''genre_ids'', PList [PInt 2]), (''release_date'', PStr ''2020-01-01'')]]
        = Some (movies, movie_genres)
      \<and> map (\<lambda>row. (dict_get row ''id'', dict_get row ''release_date'')) (rows movies)
          = [(PInt 7, PNone), (PInt 8, PNone), (PInt 9, PTimestamp 1577836800000000000)])
   \<and> transform_movies (\<lambda>v. Unparseable)
       [[(''id'', PInt 8), (''genre_ids'', PList [PInt 1]), (''release_date'', PStr ''soon''),
         (''backdrop_path'', PNone), (''poster_path'', PNone), (''video'', PBool False),
         (''adult'', PBool False)]] = None
   \<and> transform_movies (\<lambda>v. Stamp 0)
       [[(''id'', PInt 8), (''genre_ids'', PList [PInt 1]),
         (''backdrop_path'', PNone), (''poster_path'', PNone), (''video'', PBool False),
         (''adult'', PBool False)]] = None"
proof -
  let ?P = "\<lambda>v. if v = PStr ''2020-01-01'' then Stamp 1577836800000000000 else Unparseable"
  let ?a = "[(''id'', PInt 7), (''genre_ids'', PList [PInt 1]), (''release_date'', PNone),
          (''backdrop_path'', PNone), (''poster_path'', PNone), (''video'', PBool False),
          (''adult'', PBool False)]"
  let ?b = "[(''id'', PInt 8), (''genre_ids'', PList [PInt 1])]"
  let ?c = "[(''id'', PInt 9), (''genre_ids'', PList [PInt 2]), (''release_date'', PStr ''2020-01-01'')]"
  let ?bad = "[(''id'', PInt 8), (''genre_ids'', PList [PInt 1]), (''release_date'', PStr ''soon''),
         (''backdrop_path'', PNone), (''poster_path'', PNone), (''video'', PBool False),
         (''adult'', PBool False)]"
  let ?nodate = "[(''id'', PInt 8), (''genre_ids'', PList [PInt 1]),
         (''backdrop_path'', PNone), (''poster_path'', PNone), (''video'', PBool False),
         (''adult'', PBool False)]"
  have t: "transformable ?P [?a, ?b, ?c]"
    by (simp add: transformable_def kept_def isna_def dict_get_Cons dict_get_Nil)
  have k: "filter kept [?a, ?b, ?c] = [?a, ?b, ?c]"
    by (simp add: kept_def isna_def dict_get_Cons dict_get_Nil)
  from release_date_policy [where parse = ?P and results = "[?a, ?b, ?c]"] t
  obtain movies movie_genres where
    tm: "transform_movies ?P [?a, ?b, ?c] = Some (movies, movie_genres)"
    and rows: "list_all2 (\<lambda>row r. dict_get row ''id'' = dict_get r ''id''
                           \<and> to_datetime_value ?P (dict_get r ''release_date'')
                               = Some (dict_get row ''release_date'')
                           \<and> (isna (dict_get r ''release_date'') \<longrightarrow>
                                dict_get row ''release_date'' = PNone))
             (rows movies) (filter kept [?a, ?b, ?c])"
    by blast
  from rows have "map (\<lambda>row. (dict_get row ''id'', dict_get row ''release_date'')) (rows movies)
          = [(PInt 7, PNone), (PInt 8, PNone), (PInt 9, PTimestamp 1577836800000000000)]"
    unfolding k
    by (auto simp: list_all2_Cons2 dict_get_Cons dict_get_Nil to_datetime_value_def isna_def)
  with tm have first: "\<exists>movies movie_genres.
      transform_movies ?P [?a, ?b, ?c] = Some (movies, movie_genres)
      \<and> map (\<lambda>row. (dict_get row ''id'', dict_get row ''release_date'')) (rows movies)
          = [(PInt 7, PNone), (PInt 8, PNone), (PInt 9, PTimestamp 1577836800000000000)]"
    by (intro exI[of _ movies] exI[of _ movie_genres] conjI)
  have kb: "kept ?bad" "\<not> isna (dict_get ?bad ''release_date'')"
    by (simp_all add: kept_def isna_def dict_get_Cons)
  have second: "transform_movies (\<lambda>v. Unparseable) [?bad] = None"
    using release_date_policy [where parse = "\<lambda>v. Unparseable" and results = "[?bad]"] kb
    by simp
  have third: "transform_movies (\<lambda>v. Stamp 0) [?nodate] = None"
    using release_date_policy [where parse = "\<lambda>v. Stamp 0" and results = "[?nodate]"]
    by simp
  from first second third show ?thesis by (intro conjI)
qed

section \<open>Normalizer: records without identifier or genre list\<close>

text \<open>
  C7. For every batch the normalizer can transform, the movie relation it returns holds,
  in order, exactly the records that have an identifier and a genre-reference list
  (every column but the release date as the record has it); a record lacking either is
  not in it. After the page's loads every row of the \<^verbatim>\<open>movies\<close> table was there
  before or carries the identifier of such a record. For any other batch the normalizer
  returns \<^verbatim>\<open>None\<close> and nothing is handed to the loader.
\<close>

theorem invalid_records_never_persisted:
  "(transformable parse results \<longrightarrow>
      (\<exists>movies movie_genres.
         transform_movies parse results = Some (movies, movie_genres)
         \<and> ''id'' \<in> set (columns movies)
         \<and> list_all2 (\<lambda>row r. \<forall>c\<in>set (columns movies).
                                 c \<noteq> ''release_date'' \<longrightarrow> dict_get row c = dict_get r c)
             (rows movies)
             (filter (\<lambda>r. \<not> isna (dict_get r ''id'') \<and> \<not> isna (dict_get r ''genre_ids'')) results)
         \<and> (\<forall>stored\<in>set (load_page movies movie_genres engine (qualified_name ''movies'')).
               stored \<in> set (engine (qualified_name ''movies''))
               \<or> (\<exists>r\<in>set results. \<not> isna (dict_get r ''id'') \<and> \<not> isna (dict_get r ''genre_ids'')
                     \<and> stored ''id'' = dict_get r ''id''))))
   \<and> (\<not> transformable parse results \<longrightarrow> transform_movies parse results = None)"
proof (intro conjI impI)
  assume t: "transformable parse results"
  let ?cols = "columns (DataFrame results)"
  let ?kept = "\<lambda>r. \<not> isna (dict_get r ''id'') \<and> \<not> isna (dict_get r ''genre_ids'')"
  have kept_eq: "filter ?kept results = filter kept results"
    by (simp add: kept_def[abs_def])
  from t have "transform_movies parse results \<noteq> None"
    using transform_movies_Some_iff by blast
  then obtain movies movie_genres where
    tm: "transform_movies parse results = Some (movies, movie_genres)" by auto
  then have id: "''id'' \<in> set ?cols"
    and cm: "columns movies = filter (\<lambda>c. c \<notin> set dropped_columns) ?cols"
    and mv: "rows movies = map (movie_row parse ?cols) (filter kept results)"
    by (auto simp: transform_movies_char split: if_splits)
  have idm: "''id'' \<in> set (columns movies)"
    using id by (simp add: cm dropped_columns_def)
  have rows: "list_all2 (\<lambda>row r. \<forall>c\<in>set (columns movies).
                                 c \<noteq> ''release_date'' \<longrightarrow> dict_get row c = dict_get r c)
             (rows movies) (filter ?kept results)"
    unfolding mv kept_eq list_all2_map1
  proof (rule list_all2_same[THEN iffD2], intro ballI impI)
    fix r c assume "c \<in> set (columns movies)" and "c \<noteq> ''release_date''"
    then show "dict_get (movie_row parse ?cols r) c = dict_get r c"
      by (simp add: cm dict_get_movie_row)
  qed
  have stored: "\<forall>stored\<in>set (load_page movies movie_genres engine (qualified_name ''movies'')).
               stored \<in> set (engine (qualified_name ''movies''))
               \<or> (\<exists>r\<in>set results. \<not> isna (dict_get r ''id'') \<and> \<not> isna (dict_get r ''genre_ids'')
                     \<and> stored ''id'' = dict_get r ''id'')"
  proof
    fix stored assume "stored \<in> set (load_page movies movie_genres engine (qualified_name ''movies''))"
    then have "stored \<in> set (load (Some movies) ''movies'' engine (qualified_name ''movies''))"
      by (simp add: load_page_movies)
    then have "stored \<in> set (engine (qualified_name ''movies''))
               \<or> (\<exists>x\<in>set (rows movies). stored ''id'' = dict_get x ''id'')"
      by (intro load_update_provenance) simp_all
    then show "stored \<in> set (engine (qualified_name ''movies''))
               \<or> (\<exists>r\<in>set results. \<not> isna (dict_get r ''id'') \<and> \<not> isna (dict_get r ''genre_ids'')
                     \<and> stored ''id'' = dict_get r ''id'')"
    proof
      assume "stored \<in> set (engine (qualified_name ''movies''))"
      then show ?thesis ..
    next
      assume "\<exists>x\<in>set (rows movies). stored ''id'' = dict_get x ''id''"
      then obtain r where r: "r \<in> set results" "kept r"
        and "stored ''id'' = dict_get (movie_row parse ?cols r) ''id''"
        unfolding mv by auto
      then have "stored ''id'' = dict_get r ''id''"
        using id by (simp add: dict_get_movie_row dropped_columns_def)
      with r show ?thesis by (auto simp: kept_def)
    qed
  qed
  from tm idm rows stored
  show "\<exists>movies movie_genres.
         transform_movies parse results = Some (movies, movie_genres)
         \<and> ''id'' \<in> set (columns movies)
         \<and> list_all2 (\<lambda>row r. \<forall>c\<in>set (columns movies).
                                 c \<noteq> ''release_date'' \<longrightarrow> dict_get row c = dict_get r c)
             (rows movies) (filter ?kept results)
         \<and> (\<forall>stored\<in>set (load_page movies movie_genres engine (qualified_name ''movies'')).
               stored \<in> set (engine (qualified_name ''movies''))
               \<or> (\<exists>r\<in>set results. \<not> isna (dict_get r ''id'') \<and> \<not> isna (dict_get r ''genre_ids'')
                     \<and> stored ''id'' = dict_get r ''id''))"
    by (intro exI[of _ movies] exI[of _ movie_genres] conjI)
next
  assume "\<not> transformable parse results"
  then show "transform_movies parse results = None"
    using transform_movies_Some_iff by blast
qed

theorem invalid_records_never_persisted_witness:
  "\<exists>movies movie_genres.
     transform_movies (\<lambda>v. Stamp 0)
       [[(''id'', PInt 7), (''genre_ids'', PList [PInt 1]), (''release_date'', PStr ''2020-01-01''),
         (''backdrop_path'', PNone), (''poster_path'', PNone), (''video'', PBool False),
         (''adult'', PBool False)],
        [(''genre_ids'', PList [PInt 1]), (''release_date'', PStr ''2020-01-02'')],
        [(''id'', PInt 9), (''genre_ids'', PNone), (''release_date'', PStr ''2020-01-03'')]]
       = Some (movies, movie_genres)
     \<and> map (\<lambda>row. dict_get row ''id'') (rows movies) = [PInt 7]
     \<and> list_all (\<lambda>stored. stored ''id'' = PInt 7)
          (load_page movies movie_genres (\<lambda>t. []) (qualified_name ''movies''))"
proof -
  let ?a = "[(''id'', PInt 7), (''genre_ids'', PList [PInt 1]), (''release_date'', PStr ''2020-01-01''),
         (''backdrop_path'', PNone), (''poster_path'', PNone), (''video'', PBool False),
         (''adult'', PBool False)]"
  let ?b = "[(''genre_ids'', PList [PInt 1]), (''release_date'', PStr ''2020-01-02'')]"
  let ?c = "[(''id'', PInt 9), (''genre_ids'', PNone), (''release_date'', PStr ''2020-01-03'')]"
  have t: "transformable (\<lambda>v. Stamp 0) [?a, ?b, ?c]"
    by (simp add: transformable_def kept_def isna_def dict_get_Cons dict_get_Nil)
  have k: "filter (\<lambda>r. \<not> isna (dict_get r ''id'') \<and> \<not> isna (dict_get r ''genre_ids''))
             [?a, ?b, ?c] = [?a]"
    by (simp add: isna_def dict_get_Cons dict_get_Nil)
  from invalid_records_never_persisted
         [where parse = "\<lambda>v. Stamp 0" and results = "[?a, ?b, ?c]" and engine = "\<lambda>t. []"] t
  obtain movies movie_genres where
    tm: "transform_movies (\<lambda>v. Stamp 0) [?a, ?b, ?c] = Some (movies, movie_genres)"
    and idc: "''id'' \<in> set (columns movies)"
    and rows: "list_all2 (\<lambda>row r. \<forall>c\<in>set (columns movies).
                                 c \<noteq> ''release_date'' \<longrightarrow> dict_get row c = dict_get r c)
             (rows movies)
             (filter (\<lambda>r. \<not> isna (dict_get r ''id'') \<and> \<not> isna (dict_get r ''genre_ids''))
                [?a, ?b, ?c])"
    and stored: "\<forall>stored\<in>set (load_page movies movie_genres (\<lambda>t. []) (qualified_name ''movies'')).
               stored \<in> set ((\<lambda>t. []) (qualified_name ''movies''))
               \<or> (\<exists>r\<in>set [?a, ?b, ?c]. \<not> isna (dict_get r ''id'')
                     \<and> \<not> isna (dict_get r ''genre_ids'')
                     \<and> stored ''id'' = dict_get r ''id'')"
    by blast
  from rows idc have ids: "map (\<lambda>row. dict_get row ''id'') (rows movies) = [PInt 7]"
    unfolding k by (auto simp: list_all2_Cons2 dict_get_Cons)
  from stored have all: "list_all (\<lambda>stored. stored ''id'' = PInt 7)
          (load_page movies movie_genres (\<lambda>t. []) (qualified_name ''movies''))"
    by (auto simp: list_all_iff isna_def dict_get_Cons dict_get_Nil)
  from tm ids all show ?thesis
    by (intro exI[of _ movies] exI[of _ movie_genres] conjI)
qed

section \<open>Normalizer and loader: flattening\<close>



section \<open>Loader: the conflict rule\<close>



end
